theory Spec2Isabelle
  imports Main "HOL-Library.AList"
begin

section \<open>Data model of the visualizer\<close>

text \<open>
  The component \<^verbatim>\<open>EmailIntentVisualizer\<close> keeps React state (selected prediction,
  active span, edit mode, feedback ledger, pending candidate) and works on JavaScript
  objects that are shared by reference. Span objects, prediction objects and arrays
  therefore live in an explicit store; a reference is an address.

  An evidence span is a JavaScript object read through a fixed set of properties. A
  property that is absent reads as \<^verbatim>\<open>undefined\<close>, which is \<open>None\<close> here; numbers are
  the integers of the JSON input.
\<close>

type_synonym addr = nat

record span =
  s_id :: "string option"
  s_type :: "string option"
  s_field :: "string option"
  s_xpath :: "string option"
  s_relative_start :: "int option"
  s_relative_end :: "int option"
  s_start :: "int option"
  s_end :: "int option"
  s_text :: "string option"
  s_original_xpath :: "string option"
  s_original_relative_start :: "int option"
  s_original_relative_end :: "int option"
  s_original_start :: "int option"
  s_original_end :: "int option"

definition no_span :: span where
  "no_span = \<lparr> s_id = None, s_type = None, s_field = None, s_xpath = None,
     s_relative_start = None, s_relative_end = None, s_start = None, s_end = None,
     s_text = None, s_original_xpath = None, s_original_relative_start = None,
     s_original_relative_end = None, s_original_start = None, s_original_end = None \<rparr>"

text \<open>Object spread \<^verbatim>\<open>{...a, ...b}\<close>: every property of \<open>b\<close> overrides that of \<open>a\<close>.\<close>

definition over :: "'a option \<Rightarrow> 'a option \<Rightarrow> 'a option" where
  "over x y = (case y of None \<Rightarrow> x | Some v \<Rightarrow> Some v)"

definition spread :: "span \<Rightarrow> span \<Rightarrow> span" where
  "spread a b = \<lparr> s_id = over (s_id a) (s_id b), s_type = over (s_type a) (s_type b),
     s_field = over (s_field a) (s_field b), s_xpath = over (s_xpath a) (s_xpath b),
     s_relative_start = over (s_relative_start a) (s_relative_start b),
     s_relative_end = over (s_relative_end a) (s_relative_end b),
     s_start = over (s_start a) (s_start b), s_end = over (s_end a) (s_end b),
     s_text = over (s_text a) (s_text b),
     s_original_xpath = over (s_original_xpath a) (s_original_xpath b),
     s_original_relative_start =
       over (s_original_relative_start a) (s_original_relative_start b),
     s_original_relative_end = over (s_original_relative_end a) (s_original_relative_end b),
     s_original_start = over (s_original_start a) (s_original_start b),
     s_original_end = over (s_original_end a) (s_original_end b) \<rparr>"

record prediction =
  prediction_id :: string
  intent :: string
  action :: string
  artefact_type :: string
  artefact_details :: "(string \<times> string) list"
  evidence_spans :: addr

text \<open>
  One ledger entry, \<^verbatim>\<open>{ prediction_id, corrected_value: {...prediction, evidence_spans} }\<close>.
\<close>

record feedback =
  fb_prediction_id :: string
  corrected_value :: prediction

type_synonym ledger = "(string \<times> feedback) list"

record heap =
  preds :: "addr \<rightharpoonup> prediction"
  spans :: "addr \<rightharpoonup> span"
  arrays :: "addr \<rightharpoonup> addr list"
  nxt :: addr

text \<open>
  \<^verbatim>\<open>activeSpan\<close> holds either a reference to a span object of the selected prediction
  (set by \<^verbatim>\<open>handleSpanClick\<close> and \<^verbatim>\<open>handleEmailBodyClick\<close>) or the id string of a
  highlight element (set by the click listener outside edit mode).
\<close>

datatype active = ASpan addr | AId string

record vstate =
  selectedPrediction :: "addr option"
  activeSpan :: "active option"
  editMode :: bool
  feedbackData :: ledger
  highlightedText :: "span option"
  editPanelVisible :: bool
  selectionMode :: bool

definition initial_state :: vstate where
  "initial_state = \<lparr> selectedPrediction = None, activeSpan = None, editMode = False,
     feedbackData = [], highlightedText = None, editPanelVisible = False,
     selectionMode = False \<rparr>"

section \<open>Controller operations\<close>

text \<open>
  \<^verbatim>\<open>handlePredictionSelect\<close> also takes the class \<^verbatim>\<open>highlight-match\<close> off the
  prediction cards; the cards are not part of the model.
\<close>

definition handlePredictionSelect :: "addr \<Rightarrow> vstate \<Rightarrow> vstate" where
  "handlePredictionSelect p st =
     st\<lparr> selectedPrediction := Some p, activeSpan := None, editMode := False \<rparr>"

definition cancelSpanEdit :: "vstate \<Rightarrow> vstate" where
  "cancelSpanEdit st =
     st\<lparr> editMode := False, highlightedText := None, selectionMode := False \<rparr>"

text \<open>
  The feedback sink is the callback \<^verbatim>\<open>onFeedbackSubmit\<close>. A call either throws or
  returns; what it returns (for the demo application a promise, which settles later) is
  dropped by \<^verbatim>\<open>handleSubmitFeedback\<close>.
\<close>

datatype settlement = Fulfilled | Rejected

datatype sink_outcome = Returned settlement | Threw

text \<open>
  The second component of the result lists the arguments of the calls made to the sink.
  An exception thrown by the sink leaves the handler before any state setter runs.
\<close>

definition handleSubmitFeedback ::
  "(ledger \<Rightarrow> sink_outcome) \<Rightarrow> vstate \<Rightarrow> vstate \<times> ledger list" where
  "handleSubmitFeedback onFeedbackSubmit st =
     (if feedbackData st = [] then (st, [])
      else (case onFeedbackSubmit (feedbackData st) of
              Threw \<Rightarrow> (st, [feedbackData st])
            | Returned r \<Rightarrow>
                (st\<lparr> feedbackData := [], selectedPrediction := None, activeSpan := None,
                     editMode := False \<rparr>, [feedbackData st])))"

section \<open>Correction ledger\<close>

text \<open>Decimal rendering of a non-negative integer, as a template literal prints it.\<close>

definition digit_char :: "nat \<Rightarrow> char" where
  "digit_char d = ''0123456789'' ! d"

fun dec :: "nat \<Rightarrow> string" where
  "dec n = (if n < 10 then [digit_char n] else dec (n div 10) @ [digit_char (n mod 10)])"

declare dec.simps [simp del]

text \<open>\<^verbatim>\<open>Array.prototype.findIndex\<close>; \<open>None\<close> stands for the result \<open>-1\<close>.\<close>

fun findIndex :: "('a \<Rightarrow> bool) \<Rightarrow> 'a list \<Rightarrow> nat option" where
  "findIndex P [] = None"
| "findIndex P (x # xs) = (if P x then Some 0 else map_option Suc (findIndex P xs))"

text \<open>
  Reading the properties of \<^verbatim>\<open>activeSpan\<close>: a string has none of the span properties.
  A reference that is not in the store has no JavaScript counterpart; the operations
  below return \<open>None\<close> for it.
\<close>

definition active_fields :: "heap \<Rightarrow> active \<Rightarrow> span option" where
  "active_fields h a = (case a of ASpan r \<Rightarrow> spans h r | AId s \<Rightarrow> Some no_span)"

text \<open>Truthiness of \<^verbatim>\<open>activeSpan\<close>: \<^verbatim>\<open>null\<close> and the empty string are falsy.\<close>

definition truthy_active :: "active option \<Rightarrow> bool" where
  "truthy_active a = (case a of None \<Rightarrow> False | Some (ASpan r) \<Rightarrow> True | Some (AId s) \<Rightarrow> s \<noteq> [])"

fun deref_all :: "(addr \<rightharpoonup> 'a) \<Rightarrow> addr list \<Rightarrow> 'a list option" where
  "deref_all m [] = Some []"
| "deref_all m (a # as) =
     (case m a of None \<Rightarrow> None
      | Some x \<Rightarrow> (case deref_all m as of None \<Rightarrow> None | Some xs \<Rightarrow> Some (x # xs)))"

definition same_html_identity :: "span \<Rightarrow> span \<Rightarrow> bool" where
  "same_html_identity a s \<longleftrightarrow>
     s_xpath s = s_xpath a \<and> s_relative_start s = s_relative_start a \<and>
     s_relative_end s = s_relative_end a"

definition same_plain_identity :: "span \<Rightarrow> span \<Rightarrow> bool" where
  "same_plain_identity a s \<longleftrightarrow> s_start s = s_start a \<and> s_end s = s_end a"

text \<open>Allocation of a fresh span object and of a fresh array.\<close>

definition new_span :: "span \<Rightarrow> heap \<Rightarrow> addr \<times> heap" where
  "new_span s h = (nxt h, h\<lparr> spans := (spans h)(nxt h \<mapsto> s), nxt := Suc (nxt h) \<rparr>)"

definition new_array :: "addr list \<Rightarrow> heap \<Rightarrow> addr \<times> heap" where
  "new_array xs h = (nxt h, h\<lparr> arrays := (arrays h)(nxt h \<mapsto> xs), nxt := Suc (nxt h) \<rparr>)"

text \<open>
  First step of \<^verbatim>\<open>applySpanEdit\<close>: create the ledger entry of the prediction when there
  is none, with a new array holding the same span references as the prediction's list.
\<close>

definition init_feedback ::
  "prediction \<Rightarrow> ledger \<Rightarrow> heap \<Rightarrow> (ledger \<times> heap) option" where
  "init_feedback pr fd h =
     (case map_of fd (prediction_id pr) of
        Some fb \<Rightarrow> Some (fd, h)
      | None \<Rightarrow>
          (case arrays h (evidence_spans pr) of
             None \<Rightarrow> None
           | Some xs \<Rightarrow>
               (let (a, h1) = new_array xs h
                in Some (AList.update (prediction_id pr)
                     \<lparr> fb_prediction_id = prediction_id pr,
                       corrected_value = pr\<lparr> evidence_spans := a \<rparr> \<rparr> fd, h1))))"

text \<open>
  Second step: the edit proper, on the array \<open>ca\<close> of the ledger entry. \<open>now\<close> is the
  value of \<^verbatim>\<open>Date.now()\<close>.
\<close>

definition edit_existing ::
  "(span \<Rightarrow> span \<Rightarrow> bool) \<Rightarrow> (span \<Rightarrow> span \<Rightarrow> span) \<Rightarrow> span \<Rightarrow> span \<Rightarrow> addr \<Rightarrow> heap
     \<Rightarrow> heap option" where
  "edit_existing same backref a ht ca h =
     (case arrays h ca of
        None \<Rightarrow> None
      | Some correctedSpans \<Rightarrow>
          (case deref_all (spans h) correctedSpans of
             None \<Rightarrow> None
           | Some objs \<Rightarrow>
               (case findIndex (same a) objs of
                  Some i \<Rightarrow>
                    (let (n, h1) = new_span (spread (objs ! i) ht) h
                     in Some (h1\<lparr> arrays := (arrays h1)(ca \<mapsto> correctedSpans[i := n]) \<rparr>))
                | None \<Rightarrow>
                    (let (n, h1) = new_span (backref a ht) h
                     in Some (h1\<lparr> arrays := (arrays h1)(ca \<mapsto> correctedSpans @ [n]) \<rparr>)))))"

definition html_backref :: "nat \<Rightarrow> span \<Rightarrow> span \<Rightarrow> span" where
  "html_backref now a ht =
     ht\<lparr> s_id := Some (''corrected-'' @ dec now), s_original_xpath := s_xpath a,
         s_original_relative_start := s_relative_start a,
         s_original_relative_end := s_relative_end a \<rparr>"

definition plain_backref :: "nat \<Rightarrow> span \<Rightarrow> span \<Rightarrow> span" where
  "plain_backref now a ht =
     ht\<lparr> s_id := Some (''corrected-'' @ dec now), s_original_start := s_start a,
         s_original_end := s_end a \<rparr>"

definition add_new :: "nat \<Rightarrow> span \<Rightarrow> addr \<Rightarrow> heap \<Rightarrow> heap option" where
  "add_new now ht ca h =
     (case arrays h ca of
        None \<Rightarrow> None
      | Some correctedSpans \<Rightarrow>
          (let (n, h1) = new_span (ht\<lparr> s_id := Some (''new-'' @ dec now) \<rparr>) h
           in Some (h1\<lparr> arrays := (arrays h1)(ca \<mapsto> correctedSpans @ [n]) \<rparr>)))"

definition applySpanEdit :: "bool \<Rightarrow> nat \<Rightarrow> vstate \<times> heap \<Rightarrow> (vstate \<times> heap) option" where
  "applySpanEdit isHtmlContent now w =
     (let (st, h) = w in
      case (selectedPrediction st, highlightedText st) of
        (None, _) \<Rightarrow> Some w
      | (Some p, None) \<Rightarrow> Some w
      | (Some p, Some ht) \<Rightarrow>
          (case preds h p of
             None \<Rightarrow> None
           | Some pr \<Rightarrow>
               (case init_feedback pr (feedbackData st) h of
                  None \<Rightarrow> None
                | Some (fd, h1) \<Rightarrow>
                    (case map_of fd (prediction_id pr) of
                       None \<Rightarrow> None
                     | Some predictionFeedback \<Rightarrow>
                         (let ca = evidence_spans (corrected_value predictionFeedback);
                              r = (if truthy_active (activeSpan st) then
                                     (case active_fields h1 (the (activeSpan st)) of
                                        None \<Rightarrow> None
                                      | Some a \<Rightarrow>
                                          (if isHtmlContent
                                           then edit_existing same_html_identity
                                                  (html_backref now) a ht ca h1
                                           else edit_existing same_plain_identity
                                                  (plain_backref now) a ht ca h1))
                                   else add_new now ht ca h1)
                          in (case r of
                                None \<Rightarrow> None
                              | Some h2 \<Rightarrow>
                                  Some (st\<lparr> feedbackData := fd, editMode := False,
                                           activeSpan := None, highlightedText := None \<rparr>,
                                        h2)))))))"

section \<open>JavaScript string operations\<close>

text \<open>
  Strings are sequences of code units; the code units of the inputs considered here are
  below 256, so one \<open>char\<close> is one code unit and \<open>length\<close> is \<^verbatim>\<open>.length\<close>.
\<close>

definition startsWith :: "string \<Rightarrow> string \<Rightarrow> bool" where
  "startsWith s p \<longleftrightarrow> take (length p) s = p"

text \<open>\<^verbatim>\<open>s.indexOf(t)\<close>; \<open>None\<close> stands for the result \<open>-1\<close>.\<close>

fun indexOf :: "string \<Rightarrow> string \<Rightarrow> nat option" where
  "indexOf [] t = (if t = [] then Some 0 else None)"
| "indexOf (c # cs) t =
     (if startsWith (c # cs) t then Some 0 else map_option Suc (indexOf cs t))"

definition includes_str :: "string \<Rightarrow> string \<Rightarrow> bool" where
  "includes_str s t \<longleftrightarrow> indexOf s t \<noteq> None"

text \<open>\<^verbatim>\<open>s.substring(a, b)\<close>: both bounds are clamped to the string and swapped if needed.\<close>

definition substring :: "string \<Rightarrow> int \<Rightarrow> int \<Rightarrow> string" where
  "substring s a b =
     (let n = int (length s); a' = max 0 (min a n); b' = max 0 (min b n);
          lo = min a' b'; hi = max a' b'
      in take (nat (hi - lo)) (drop (nat lo) s))"

definition substring_from :: "string \<Rightarrow> int \<Rightarrow> string" where
  "substring_from s a = substring s a (int (length s))"

text \<open>
  White space and line terminators removed by \<^verbatim>\<open>trim\<close>, among the code units below
  256: TAB, LF, VT, FF, CR, space and the no-break space.
\<close>

definition js_space :: "char \<Rightarrow> bool" where
  "js_space c \<longleftrightarrow> (of_char c :: nat) \<in> {9, 10, 11, 12, 13, 32, 160}"

definition trim :: "string \<Rightarrow> string" where
  "trim s = rev (dropWhile js_space (rev (dropWhile js_space s)))"

text \<open>\<^verbatim>\<open>s.replace(pat, rep)\<close> with a string pattern: the first occurrence only.\<close>

fun replace_first :: "string \<Rightarrow> string \<Rightarrow> string \<Rightarrow> string" where
  "replace_first [] pat rep = (if pat = [] then rep else [])"
| "replace_first (c # cs) pat rep =
     (if startsWith (c # cs) pat then rep @ drop (length pat) (c # cs)
      else c # replace_first cs pat rep)"

definition is_digit :: "char \<Rightarrow> bool" where
  "is_digit c \<longleftrightarrow> 48 \<le> (of_char c :: nat) \<and> (of_char c :: nat) \<le> 57"

text \<open>The number written by a run of decimal digits.\<close>

definition digits_value :: "string \<Rightarrow> nat" where
  "digits_value ds = foldl (\<lambda>n c. 10 * n + (of_char c - 48)) 0 ds"

text \<open>
  \<^verbatim>\<open>parseInt\<close> of a non-empty run of decimal digits, printed again by a template
  literal. JavaScript numbers are doubles: a run of at most 15 digits is parsed exactly
  and printed in plain decimal without leading zeros. A longer run may be rounded and,
  from 22 digits on, is printed with an exponent; what the engine prints for it is the
  parameter \<open>big\<close>.
\<close>

definition number_text :: "(string \<Rightarrow> string) \<Rightarrow> string \<Rightarrow> string" where
  "number_text big ds = (if length ds \<le> 15 then dec (digits_value ds) else big ds)"

text \<open>
  \<^verbatim>\<open>parseInt(s)\<close> on any string: leading white space is skipped, a sign is read, the
  prefix \<^verbatim>\<open>0x\<close> selects radix 16, and the longest run of digits is the value; without
  a digit the result is \<^verbatim>\<open>NaN\<close>, here \<open>None\<close>. The value is kept exact. The component
  only compares it with an array index, and an integer too large for a double is
  rounded to another integer that is no array index either.
\<close>

definition hex_digit :: "char \<Rightarrow> nat option" where
  "hex_digit c =
     (let n = (of_char c :: nat) in
      if 48 \<le> n \<and> n \<le> 57 then Some (n - 48)
      else if 97 \<le> n \<and> n \<le> 102 then Some (n - 87)
      else if 65 \<le> n \<and> n \<le> 70 then Some (n - 55)
      else None)"

definition hex_value :: "string \<Rightarrow> nat" where
  "hex_value ds = foldl (\<lambda>n c. 16 * n + (case hex_digit c of None \<Rightarrow> 0 | Some d \<Rightarrow> d)) 0 ds"

definition js_parseInt :: "string \<Rightarrow> int option" where
  "js_parseInt s =
     (let s1 = dropWhile js_space s;
          sign = (if startsWith s1 ''-'' then - 1 else (1 :: int));
          s2 = (if startsWith s1 ''-'' \<or> startsWith s1 ''+'' then drop 1 s1 else s1)
      in if startsWith s2 ''0x'' \<or> startsWith s2 ''0X'' then
           (let ds = takeWhile (\<lambda>c. hex_digit c \<noteq> None) (drop 2 s2)
            in if ds = [] then None else Some (sign * int (hex_value ds)))
         else
           (let ds = takeWhile is_digit s2
            in if ds = [] then None else Some (sign * int (digits_value ds))))"

text \<open>
  A match of the regular expression \<^verbatim>\<open>name\[(\d+)\]\<close> at the very start of \<open>s\<close>: the
  captured digits and the rest of the string.
\<close>

definition bracketed :: "string \<Rightarrow> string \<Rightarrow> (string \<times> string) option" where
  "bracketed name s =
     (if startsWith s (name @ ''['') then
        (let r = drop (length name + 1) s; ds = takeWhile is_digit r; r' = dropWhile is_digit r
         in if ds \<noteq> [] \<and> startsWith r' '']'' then Some (ds, drop 1 r') else None)
      else None)"

text \<open>The leftmost position of the string at which a matcher succeeds.\<close>

fun first_match :: "(string \<Rightarrow> 'a option) \<Rightarrow> string \<Rightarrow> 'a option" where
  "first_match m [] = m []"
| "first_match m (c # cs) =
     (case m (c # cs) of Some r \<Rightarrow> Some r | None \<Rightarrow> first_match m cs)"

text \<open>The regular expression \<^verbatim>\<open>tr\[(\d+)\]\/td\[(\d+)\]\<close> at the start of \<open>s\<close>.\<close>

definition tr_td_here :: "string \<Rightarrow> unit option" where
  "tr_td_here s =
     (case bracketed ''tr'' s of
        None \<Rightarrow> None
      | Some (ds, r) \<Rightarrow>
          (if startsWith r ''/'' then
             (case bracketed ''td'' (drop 1 r) of None \<Rightarrow> None | Some x \<Rightarrow> Some ())
           else None))"

section \<open>Text locator\<close>

text \<open>
  The offset computation of \<^verbatim>\<open>applyHighlights\<close> for one span and the content of the
  text node found for it. \<open>None\<close> is the silent skip of a degenerate range.
\<close>

definition truthy_text :: "string option \<Rightarrow> bool" where
  "truthy_text t = (case t of None \<Rightarrow> False | Some s \<Rightarrow> s \<noteq> [])"

definition declared_offsets :: "span \<Rightarrow> string \<Rightarrow> int \<times> int" where
  "declared_offsets sp textContent =
     (let relStart = max 0 (case s_relative_start sp of None \<Rightarrow> 0 | Some v \<Rightarrow> v);
          relEnd = (case s_relative_end sp of
                      Some e \<Rightarrow> e
                    | None \<Rightarrow>
                        (if truthy_text (s_text sp)
                         then relStart + int (length (the (s_text sp)))
                         else int (length textContent)))
      in (min relStart (int (length textContent)), min relEnd (int (length textContent))))"

definition found_at :: "string \<Rightarrow> string \<Rightarrow> int \<times> int" where
  "found_at textContent t =
     (let exactPosition = int (the (indexOf textContent t))
      in (exactPosition, exactPosition + int (length t)))"

definition adjusted_offsets :: "span \<Rightarrow> string \<Rightarrow> int \<times> int" where
  "adjusted_offsets sp textContent =
     (let d = declared_offsets sp textContent in
      if truthy_text (s_text sp) then
        (let t = the (s_text sp) in
         if includes_str textContent t then found_at textContent t
         else
           (let trimmedText = trim t in
            if includes_str textContent trimmedText then found_at textContent trimmedText
            else if length trimmedText > 5 then
              (let partialText =
                     substring trimmedText 0 (min (int (length trimmedText)) 15)
               in if includes_str textContent partialText then found_at textContent partialText
                  else d)
            else d))
      else d)"

definition locate :: "span \<Rightarrow> string \<Rightarrow> (int \<times> int) option" where
  "locate sp textContent =
     (let (relStart, relEnd) = adjusted_offsets sp textContent
      in if relStart \<ge> relEnd \<or> relEnd \<le> 0 \<or> relEnd > int (length textContent)
         then None else Some (relStart, relEnd))"

section \<open>XPath resolver\<close>

text \<open>
  The candidate expressions built by \<^verbatim>\<open>applyHighlights\<close>, in the order in which they
  are pushed. A span without \<^verbatim>\<open>xpath\<close> makes \<^verbatim>\<open>startsWith\<close> throw; the span is then
  skipped (\<open>None\<close>). An absent \<^verbatim>\<open>text\<close> is printed as \<^verbatim>\<open>undefined\<close> by the template.
\<close>

definition template_text :: "string option \<Rightarrow> string" where
  "template_text t = (case t of None \<Rightarrow> ''undefined'' | Some s \<Rightarrow> s)"

definition table_variations :: "(string \<Rightarrow> string) \<Rightarrow> string \<Rightarrow> string option \<Rightarrow> string list" where
  "table_variations big normalizedXPath txt =
     (if includes_str normalizedXPath ''table'' then
        [''//table//tr//td[contains(text(), '' @ [CHR 39] @ template_text txt @ [CHR 39] @ '')]''] @
        (if first_match tr_td_here normalizedXPath \<noteq> None then
           (case (first_match (bracketed ''tr'') normalizedXPath,
                  first_match (bracketed ''td'') normalizedXPath) of
              (Some (tr, r1), Some (td, r2)) \<Rightarrow>
                [''//table/tr['' @ number_text big tr @ '']/td['' @ number_text big td @ '']'']
            | _ \<Rightarrow> [])
         else [])
      else [])"

definition simple_path :: "string \<Rightarrow> string" where
  "simple_path normalizedXPath =
     (let p1 = (if startsWith normalizedXPath ''/html/body''
                then replace_first normalizedXPath ''/html/body'' [] else normalizedXPath);
          p2 = (if p1 = [] then ''.'' else p1)
      in if startsWith p2 ''/'' then substring_from p2 1 else p2)"

definition pushed_variations :: "(string \<Rightarrow> string) \<Rightarrow> string \<Rightarrow> string option \<Rightarrow> string list" where
  "pushed_variations big normalizedXPath txt =
     (if startsWith normalizedXPath ''/html/body''
      then [replace_first normalizedXPath ''/html/body'' []] @
           table_variations big normalizedXPath txt
      else []) @
     (if startsWith normalizedXPath ''/html''
      then [replace_first normalizedXPath ''/html'' []] else []) @
     [simple_path normalizedXPath] @
     [normalizedXPath]"

text \<open>\<^verbatim>\<open>[...new Set(xs)]\<close>: the first occurrence of every element, in order.\<close>

fun dedupe_from :: "'a list \<Rightarrow> 'a list \<Rightarrow> 'a list" where
  "dedupe_from seen [] = []"
| "dedupe_from seen (x # xs) =
     (if x \<in> set seen then dedupe_from seen xs else x # dedupe_from (x # seen) xs)"

definition dedupe :: "'a list \<Rightarrow> 'a list" where
  "dedupe xs = dedupe_from [] xs"

definition xpathVariations :: "(string \<Rightarrow> string) \<Rightarrow> span \<Rightarrow> string list option" where
  "xpathVariations big sp =
     (case s_xpath sp of
        None \<Rightarrow> None
      | Some x \<Rightarrow> Some (dedupe (pushed_variations big x (s_text sp))))"

text \<open>
  \<^verbatim>\<open>document.evaluate\<close> belongs to the browser and is a parameter. It is asked for the
  first node in document order, once with the rendering root as context node and once
  with the whole document, and may throw on an expression it cannot parse.
\<close>

datatype eval_context = RenderingRoot | WholeDocument

datatype 'n evaluation = Throws | NoNode | FirstNode 'n

text \<open>One round of the loop over the candidates: \<open>None\<close> means "try the next one".\<close>

definition try_candidate :: "(string \<Rightarrow> eval_context \<Rightarrow> 'n evaluation) \<Rightarrow> string \<Rightarrow> 'n option" where
  "try_candidate ev x =
     (case ev x RenderingRoot of
        FirstNode n \<Rightarrow> Some n
      | Throws \<Rightarrow> None
      | NoNode \<Rightarrow>
          (case ev x WholeDocument of
             FirstNode n \<Rightarrow> Some n
           | Throws \<Rightarrow> None
           | NoNode \<Rightarrow> None))"

fun try_all :: "(string \<Rightarrow> eval_context \<Rightarrow> 'n evaluation) \<Rightarrow> string list \<Rightarrow> 'n option" where
  "try_all ev [] = None"
| "try_all ev (x # xs) =
     (case try_candidate ev x of Some n \<Rightarrow> Some n | None \<Rightarrow> try_all ev xs)"

definition resolve_target ::
  "(string \<Rightarrow> string) \<Rightarrow> (string \<Rightarrow> eval_context \<Rightarrow> 'n evaluation) \<Rightarrow> span \<Rightarrow> 'n option" where
  "resolve_target big ev sp =
     (case xpathVariations big sp of None \<Rightarrow> None | Some xs \<Rightarrow> try_all ev xs)"

text \<open>
  The second resolver of the repository, \<^verbatim>\<open>normalizeXPath\<close> with
  \<^verbatim>\<open>getElementByXPath\<close>: it asks for all matching nodes, with one context node only.
  An exception ends the whole search with what was collected, which is nothing.
\<close>

record xpath_obj =
  original :: string
  simplified :: string
  variations :: "string list"

definition normalizeXPath :: "string \<Rightarrow> xpath_obj option" where
  "normalizeXPath xpath =
     (if xpath = [] then None
      else Some \<lparr> original = xpath,
                  simplified =
                    (let p = (if startsWith xpath ''/html/body''
                              then replace_first xpath ''/html/body'' [] else xpath)
                     in if p = [] then ''.'' else p),
                  variations =
                    (if startsWith xpath ''/html/body''
                     then [replace_first xpath ''/html/body'' []] else []) @
                    (if startsWith xpath ''/html''
                     then [replace_first xpath ''/html'' []] else []) \<rparr>)"

fun first_nonempty :: "(string \<Rightarrow> 'n list option) \<Rightarrow> string list \<Rightarrow> 'n list" where
  "first_nonempty ev [] = []"
| "first_nonempty ev (x # xs) =
     (case ev x of
        None \<Rightarrow> []
      | Some ns \<Rightarrow> (if ns \<noteq> [] then ns else first_nonempty ev xs))"

definition getElementByXPath :: "(string \<Rightarrow> 'n list option) \<Rightarrow> xpath_obj option \<Rightarrow> 'n list" where
  "getElementByXPath ev xpathObj =
     (case xpathObj of
        None \<Rightarrow> []
      | Some x \<Rightarrow> first_nonempty ev ([original x, simplified x] @ variations x))"

section \<open>Document tree and overlay renderer\<close>

text \<open>
  An element has a tag, a class, a title, its \<^verbatim>\<open>data-*\<close> attributes and its other
  attributes, such as \<^verbatim>\<open>src\<close> or an event handler.
\<close>

record attrs =
  tagName :: string
  className :: string
  title :: string
  dataset :: "(string \<times> string) list"
  attributes :: "(string \<times> string) list"

datatype node = TextNode string | Element attrs "node list"

text \<open>A node is addressed by the child indices leading to it from the root element.\<close>

type_synonym path = "nat list"

fun node_at :: "node \<Rightarrow> path \<Rightarrow> node option" where
  "node_at n [] = Some n"
| "node_at (TextNode t) (i # p) = None"
| "node_at (Element a cs) (i # p) = (if i < length cs then node_at (cs ! i) p else None)"

text \<open>Replacing the node at a path by a sequence of siblings; there is none at the root.\<close>

fun splice :: "node \<Rightarrow> path \<Rightarrow> node list \<Rightarrow> node option" where
  "splice n [] new = None"
| "splice (TextNode t) (i # p) new = None"
| "splice (Element a cs) [i] new =
     (if i < length cs then Some (Element a (take i cs @ new @ drop (Suc i) cs)) else None)"
| "splice (Element a cs) (i # j # p) new =
     (if i < length cs then
        (case splice (cs ! i) (j # p) new of
           None \<Rightarrow> None
         | Some c \<Rightarrow> Some (Element a (cs[i := c])))
      else None)"

text \<open>Giving the element at a path new children (\<^verbatim>\<open>innerHTML = ''\<close>, \<^verbatim>\<open>appendChild\<close>).\<close>

fun set_children :: "node \<Rightarrow> path \<Rightarrow> node list \<Rightarrow> node option" where
  "set_children (TextNode t) p new = None"
| "set_children (Element a cs) [] new = Some (Element a new)"
| "set_children (Element a cs) (i # p) new =
     (if i < length cs then
        (case set_children (cs ! i) p new of
           None \<Rightarrow> None
         | Some c \<Rightarrow> Some (Element a (cs[i := c])))
      else None)"

definition childNodes_of :: "node \<Rightarrow> node list" where
  "childNodes_of n = (case n of TextNode t \<Rightarrow> [] | Element a cs \<Rightarrow> cs)"

definition dataset_of :: "node \<Rightarrow> string \<Rightarrow> string option" where
  "dataset_of n k = (case n of TextNode t \<Rightarrow> None | Element a cs \<Rightarrow> map_of (dataset a) k)"

text \<open>\<^verbatim>\<open>x || ''\<close> and \<^verbatim>\<open>x || d\<close> on an optional string: absent and empty are falsy.\<close>

definition or_else :: "string option \<Rightarrow> string \<Rightarrow> string" where
  "or_else x d = (case x of None \<Rightarrow> d | Some s \<Rightarrow> (if s = [] then d else s))"

definition resize_handle :: "string \<Rightarrow> node" where
  "resize_handle which =
     Element \<lparr> tagName = ''span'', className = ''resize-handle '' @ which,
               title = ''Drag to adjust '' @ which @ '' position'',
               dataset = [(''handleType'', which)], attributes = [] \<rparr> []"

text \<open>
  \<^verbatim>\<open>createSpanElement\<close> reads \<^verbatim>\<open>editMode\<close> from the closure in which the callback was
  created; that value is the first parameter. \<^verbatim>\<open>readOnly\<close> is not read. Setting
  \<^verbatim>\<open>textContent\<close> to the empty string gives the element no child.
\<close>

definition createSpanElement ::
  "bool \<Rightarrow> string \<Rightarrow> bool \<Rightarrow> string \<Rightarrow> string \<Rightarrow> string option \<Rightarrow> node" where
  "createSpanElement editMode_seen txt isActive spanId spanType fieldName =
     Element
       \<lparr> tagName = ''span'',
         className = ''evidence-span evidence-'' @ spanType @ '' '' @
                     (if isActive then ''active'' else []),
         title = (if spanType = ''intent'' then ''Intent Evidence''
                  else if spanType = ''action'' then ''Action Evidence''
                  else if spanType = ''artefact_type'' then ''Artefact Type Evidence''
                  else if spanType = ''artefact_detail''
                    then ''Artefact Detail: '' @ or_else fieldName []
                  else []),
         dataset = [(''spanId'', spanId), (''spanType'', spanType),
                    (''fieldName'', or_else fieldName []),
                    (''clickable'', (if \<not> editMode_seen then ''true'' else ''false'')),
                    (''spanText'', txt)],
         attributes = [] \<rparr>
       (if editMode_seen \<and> isActive
        then [resize_handle ''start'', TextNode txt, resize_handle ''end'']
        else if txt = [] then [] else [TextNode txt])"

text \<open>
  \<^verbatim>\<open>findFirstTextNode\<close>: the first text node with non-blank content, depth first; the
  result is its path below the node searched.
\<close>

definition nonblank_text :: "node \<Rightarrow> bool" where
  "nonblank_text n = (case n of TextNode t \<Rightarrow> trim t \<noteq> [] | Element a cs \<Rightarrow> False)"

fun findFirstTextNode :: "node \<Rightarrow> path option"
  and find_in_children :: "node list \<Rightarrow> nat \<Rightarrow> path option" where
  "findFirstTextNode (TextNode t) = (if trim t \<noteq> [] then Some [] else None)"
| "findFirstTextNode (Element a cs) = find_in_children cs 0"
| "find_in_children [] i = None"
| "find_in_children (c # cs) i =
     (if nonblank_text c then Some [i]
      else (case findFirstTextNode c of
              Some p \<Rightarrow> Some (i # p)
            | None \<Rightarrow> find_in_children cs (Suc i)))"

text \<open>
  The XPath engine of the browser is a parameter: given the current document, the path
  of the rendering root, an expression and the context to use, it answers with the path
  of the first matching node.
\<close>

type_synonym evaluator = "node \<Rightarrow> path \<Rightarrow> string \<Rightarrow> eval_context \<Rightarrow> path evaluation"

definition is_active_span :: "span option \<Rightarrow> span \<Rightarrow> bool" where
  "is_active_span act sp =
     (case act of
        None \<Rightarrow> False
      | Some a \<Rightarrow> s_xpath a = s_xpath sp \<and> s_relative_start a = s_relative_start sp \<and>
                  s_relative_end a = s_relative_end sp)"

text \<open>
  The highlight element that \<^verbatim>\<open>applyHighlights\<close> creates for a span with number
  \<open>index\<close> and the text \<open>txt\<close> cut from the text node. The callback
  \<^verbatim>\<open>createSpanElement\<close> is created once (\<^verbatim>\<open>useCallback\<close> with no dependencies), in the
  first render, where \<^verbatim>\<open>editMode\<close> is \<^verbatim>\<open>false\<close>; that is the value it sees in every
  later call.
\<close>

definition highlight_element :: "span option \<Rightarrow> span \<Rightarrow> nat \<Rightarrow> string \<Rightarrow> node" where
  "highlight_element act sp index txt =
     createSpanElement False txt (is_active_span act sp)
       (or_else (s_id sp) (''span-'' @ dec index))
       (or_else (s_type sp) ''default'')
       (s_field sp)"

text \<open>
  The body of the loop of \<^verbatim>\<open>applyHighlights\<close> for the span with number \<open>index\<close>. Every
  \<^verbatim>\<open>return\<close> and every caught exception leaves the document as it is.
\<close>

definition highlight_span ::
  "(string \<Rightarrow> string) \<Rightarrow> evaluator \<Rightarrow> span option \<Rightarrow> path \<Rightarrow> span \<Rightarrow> nat \<Rightarrow> node \<Rightarrow> node" where
  "highlight_span big ev act element sp index doc =
     (case resolve_target big (ev doc element) sp of
        None \<Rightarrow> doc
      | Some target \<Rightarrow>
          (case node_at doc target of
             None \<Rightarrow> doc
           | Some targetElement \<Rightarrow>
               (case findFirstTextNode targetElement of
                  None \<Rightarrow> doc
                | Some rel \<Rightarrow>
                    (case node_at doc (target @ rel) of
                       Some (TextNode textContent) \<Rightarrow>
                         (case locate sp textContent of
                            None \<Rightarrow> doc
                          | Some (relStart, relEnd) \<Rightarrow>
                              (let before = TextNode (substring textContent 0 relStart);
                                   highlight =
                                     highlight_element act sp index
                                       (substring textContent relStart relEnd);
                                   after = TextNode (substring_from textContent relEnd)
                               in (case splice doc (target @ rel) [before, highlight, after] of
                                     None \<Rightarrow> doc
                                   | Some d \<Rightarrow> d)))
                     | _ \<Rightarrow> doc))))"

fun highlight_spans ::
  "(string \<Rightarrow> string) \<Rightarrow> evaluator \<Rightarrow> span option \<Rightarrow> path \<Rightarrow> span list \<Rightarrow> nat \<Rightarrow> node
     \<Rightarrow> node" where
  "highlight_spans big ev act element [] index doc = doc"
| "highlight_spans big ev act element (sp # sps) index doc =
     highlight_spans big ev act element sps (Suc index)
       (highlight_span big ev act element sp index doc)"

definition applyHighlights ::
  "(string \<Rightarrow> string) \<Rightarrow> evaluator \<Rightarrow> span option \<Rightarrow> path \<Rightarrow> span list \<Rightarrow> node \<Rightarrow> node" where
  "applyHighlights big ev act element sps doc = highlight_spans big ev act element sps 0 doc"

text \<open>
  The content of the email body element as React renders it: the sanitized markup,
  parsed by the browser. \<^verbatim>\<open>DOMPurify.sanitize\<close> and the HTML parser are parameters.
\<close>

definition renderEmailContent_html ::
  "(string \<Rightarrow> string) \<Rightarrow> (string \<Rightarrow> node list) \<Rightarrow> bool \<Rightarrow> string \<Rightarrow> node" where
  "renderEmailContent_html sanitize parse editMode_now emailContent =
     Element \<lparr> tagName = ''div'',
               className = ''email-body html-content '' @
                           (if editMode_now then ''edit-mode'' else []),
               title = [], dataset = [], attributes = [] \<rparr>
       (parse (sanitize emailContent))"

text \<open>The same function in the second version of the component: the markup as it is.\<close>

definition renderEmailContent_html_alt ::
  "(string \<Rightarrow> node list) \<Rightarrow> bool \<Rightarrow> string \<Rightarrow> node" where
  "renderEmailContent_html_alt parse editMode_now content =
     Element \<lparr> tagName = ''div'',
               className = ''email-body'' @ (if editMode_now then '' edit-mode'' else []),
               title = [], dataset = [], attributes = [] \<rparr>
       (parse content)"

text \<open>
  The effect that re-renders the HTML body and applies the highlights. \<open>emailBodyRef\<close>
  is the path of the email body element in the document, if it is mounted. The two
  steps of the effect, the rebuild and the delayed call of \<^verbatim>\<open>applyHighlights\<close>, are
  taken together; \<open>big\<close> is the number printer of the resolver. A parsed body without
  child nodes reaches the assignment from the
  undeclared variable \<^verbatim>\<open>sanitizedHtml\<close>, whose exception ends the effect after the
  body has been emptied.
\<close>

definition active_span_fields :: "vstate \<Rightarrow> heap \<Rightarrow> span option" where
  "active_span_fields st h =
     (if truthy_active (activeSpan st) then active_fields h (the (activeSpan st)) else None)"

definition selected_spans :: "vstate \<Rightarrow> heap \<Rightarrow> span list" where
  "selected_spans st h =
     (case selectedPrediction st of
        None \<Rightarrow> []
      | Some p \<Rightarrow>
          (case preds h p of
             None \<Rightarrow> []
           | Some pr \<Rightarrow>
               (case arrays h (evidence_spans pr) of
                  None \<Rightarrow> []
                | Some xs \<Rightarrow> (case deref_all (spans h) xs of None \<Rightarrow> [] | Some ss \<Rightarrow> ss))))"

definition wrapperDiv :: "node list \<Rightarrow> node" where
  "wrapperDiv kids =
     Element \<lparr> tagName = ''div'', className = ''email-html-wrapper'', title = [],
               dataset = [], attributes = [] \<rparr> kids"

definition html_rerender ::
  "(string \<Rightarrow> string) \<Rightarrow> (string \<Rightarrow> node list) \<Rightarrow> evaluator \<Rightarrow> bool \<Rightarrow> string \<Rightarrow> path option
     \<Rightarrow> vstate \<Rightarrow> heap \<Rightarrow> node \<Rightarrow> node" where
  "html_rerender big parse ev isHtmlContent emailContent emailBodyRef st h doc =
     (if isHtmlContent \<and> emailBodyRef \<noteq> None \<and> selectedPrediction st \<noteq> None then
        (let body = the emailBodyRef in
         case set_children doc body [] of
           None \<Rightarrow> doc
         | Some cleared \<Rightarrow>
             (if parse emailContent \<noteq> [] then
                (case set_children cleared body [wrapperDiv (parse emailContent)] of
                   None \<Rightarrow> cleared
                 | Some rebuilt \<Rightarrow>
                     (if selected_spans st h = [] then rebuilt
                      else applyHighlights big ev (active_span_fields st h) (body @ [0])
                             (selected_spans st h) rebuilt))
              else cleared))
      else doc)"

section \<open>Selecting a span for editing\<close>

text \<open>\<^verbatim>\<open>textContent\<close> of a node: the texts below it, in document order.\<close>

fun textContent_of :: "node \<Rightarrow> string" where
  "textContent_of (TextNode t) = t"
| "textContent_of (Element a cs) = concat (map textContent_of cs)"

text \<open>\<^verbatim>\<open>xs.indexOf(x)\<close>; \<open>None\<close> stands for the result \<open>-1\<close>.\<close>

fun index_of :: "'a list \<Rightarrow> 'a \<Rightarrow> nat option" where
  "index_of [] y = None"
| "index_of (x # xs) y = (if x = y then Some 0 else map_option Suc (index_of xs y))"

text \<open>
  The test by which \<^verbatim>\<open>handleEmailBodyClick\<close> looks for the evidence span of the clicked
  highlight: a span with an id is compared by id; a span without one is found by the
  number in a generated id \<^verbatim>\<open>span-N\<close>. \<open>evidence\<close> is the evidence list of the selected
  prediction, as references.
\<close>

definition span_matches_id :: "heap \<Rightarrow> addr list \<Rightarrow> string \<Rightarrow> addr \<Rightarrow> bool" where
  "span_matches_id h evidence spanId r =
     (case spans h r of
        None \<Rightarrow> False
      | Some sp \<Rightarrow>
          (if truthy_text (s_id sp) then s_id sp = Some spanId
           else if spanId \<noteq> [] \<and> startsWith spanId ''span-'' then
             (case js_parseInt (replace_first spanId ''span-'' []) of
                None \<Rightarrow> False
              | Some index \<Rightarrow> index \<ge> 0 \<and> map_option int (index_of evidence r) = Some index)
           else False))"

definition clicked_id :: "node \<Rightarrow> string" where
  "clicked_id spanElement = or_else (dataset_of spanElement ''spanId'') []"

definition clicked_text :: "node \<Rightarrow> string" where
  "clicked_text spanElement =
     or_else (dataset_of spanElement ''spanText'') (textContent_of spanElement)"

text \<open>
  \<^verbatim>\<open>handleEmailBodyClick\<close> for a click on or inside the highlight element \<open>spanElement\<close>:
  in edit mode, on an editable viewer, the span found becomes the active span and,
  with the text of the highlight, the pending candidate.
\<close>

definition handleEmailBodyClick :: "bool \<Rightarrow> node \<Rightarrow> vstate \<times> heap \<Rightarrow> vstate" where
  "handleEmailBodyClick readOnly spanElement w =
     (let (st, h) = w in
      if \<not> editMode st \<or> readOnly then st
      else
        (case selectedPrediction st of
           None \<Rightarrow> st
         | Some p \<Rightarrow>
             (case preds h p of
                None \<Rightarrow> st
              | Some pr \<Rightarrow>
                  (case arrays h (evidence_spans pr) of
                     None \<Rightarrow> st
                   | Some evidence \<Rightarrow>
                       (case List.find (span_matches_id h evidence (clicked_id spanElement))
                               evidence of
                          None \<Rightarrow> st
                        | Some r \<Rightarrow>
                            (case spans h r of
                               None \<Rightarrow> st
                             | Some originalSpan \<Rightarrow>
                                 st\<lparr> activeSpan := Some (ASpan r),
                                     highlightedText :=
                                       Some (originalSpan\<lparr> s_text :=
                                               Some (clicked_text spanElement) \<rparr>),
                                     editPanelVisible := True \<rparr>))))))"

text \<open>
  \<^verbatim>\<open>handleSpanMetadataChange\<close> is called by the two selectors of the edit panel, with
  the key \<^verbatim>\<open>type\<close> and with the key \<^verbatim>\<open>field\<close>.
\<close>

datatype meta_key = TypeKey | FieldKey

definition set_meta :: "span \<Rightarrow> meta_key \<times> string \<Rightarrow> span" where
  "set_meta c kv =
     (case fst kv of
        TypeKey \<Rightarrow> c\<lparr> s_type := Some (snd kv) \<rparr>
      | FieldKey \<Rightarrow> c\<lparr> s_field := Some (snd kv) \<rparr>)"

definition handleSpanMetadataChange :: "vstate \<Rightarrow> meta_key \<times> string \<Rightarrow> vstate" where
  "handleSpanMetadataChange st kv =
     (case highlightedText st of
        None \<Rightarrow> st
      | Some c \<Rightarrow> st\<lparr> highlightedText := Some (set_meta c kv) \<rparr>)"

text \<open>
  The click listener that the effect of lines 842 to 1023 puts on a highlight element
  whose flag is \<^verbatim>\<open>true\<close>, when the effect runs outside edit mode. The listener
  stores the id string of the element as the active span; an absent id is
  \<^verbatim>\<open>undefined\<close>, which is as falsy as \<^verbatim>\<open>null\<close>.
\<close>

definition has_click_listener :: "bool \<Rightarrow> node \<Rightarrow> bool" where
  "has_click_listener attached spanElement \<longleftrightarrow>
     attached \<and> dataset_of spanElement ''clickable'' = Some ''true''"

definition span_click_listener :: "bool \<Rightarrow> node \<Rightarrow> vstate \<Rightarrow> vstate" where
  "span_click_listener readOnly spanElement st =
     (if readOnly then st
      else st\<lparr> activeSpan := map_option AId (dataset_of spanElement ''spanId'') \<rparr>)"

text \<open>
  Which highlights carry that listener is decided by the effects that run after a
  commit, in the order of their declaration. The re-render effect (lines 793 to 839)
  runs when the selected prediction, the ledger or the active span has changed, the
  latter two through \<^verbatim>\<open>applyHighlights\<close>; for an HTML email with a prediction selected
  it empties the body, and the highlights it schedules are new elements without
  listeners. The listener effect (lines 842 to 1023) runs when the selected prediction
  or edit mode has changed: its cleanup replaces every highlight by a clone, which
  drops the listeners, and the effect puts them on the highlights it finds if edit mode
  is off. After a rebuild in the same commit it finds none, the highlights being
  scheduled 50 ms later. \<open>attached\<close> says whether the highlights in the document carry
  the listener; the events of the user are taken to be more than 50 ms apart.
\<close>

definition listeners_after :: "bool \<Rightarrow> vstate \<Rightarrow> vstate \<Rightarrow> bool \<Rightarrow> bool" where
  "listeners_after isHtmlContent old new attached =
     (if (selectedPrediction new \<noteq> selectedPrediction old \<or>
          feedbackData new \<noteq> feedbackData old \<or> activeSpan new \<noteq> activeSpan old) \<and>
         isHtmlContent \<and> selectedPrediction new \<noteq> None
      then False
      else if selectedPrediction new \<noteq> selectedPrediction old \<or> editMode new \<noteq> editMode old
      then \<not> editMode new
      else attached)"

text \<open>
  What the user can do, as events. A click on a highlight is taken by the listener of
  the highlight, if it has one, which stops the propagation of the click; otherwise the
  click reaches \<^verbatim>\<open>handleEmailBodyClick\<close>. The button "Edit Evidence" is rendered while
  a prediction is selected on an editable viewer and is disabled in edit mode. The edit
  panel with the type selector and the buttons "Apply" and "Cancel" is rendered while
  \<^verbatim>\<open>activeSpan\<close> is truthy in edit mode; "Apply" is disabled without a pending
  candidate. \<open>Apply now\<close> is a click on "Apply" at the time \<open>now\<close>.
\<close>

datatype ui_event =
  SelectPrediction addr
  | EditEvidence
  | ClickHighlight node
  | SelectType string
  | Apply nat
  | Cancel

definition panel_shown :: "vstate \<Rightarrow> bool" where
  "panel_shown st \<longleftrightarrow> truthy_active (activeSpan st) \<and> editMode st"

fun handle_event ::
  "bool \<Rightarrow> bool \<Rightarrow> ui_event \<Rightarrow> bool \<Rightarrow> vstate \<times> heap \<Rightarrow> (vstate \<times> heap) option" where
  "handle_event readOnly isHtmlContent (SelectPrediction p) attached w =
     Some (handlePredictionSelect p (fst w), snd w)"
| "handle_event readOnly isHtmlContent EditEvidence attached w =
     Some (if selectedPrediction (fst w) \<noteq> None \<and> \<not> readOnly \<and> \<not> editMode (fst w)
           then ((fst w)\<lparr> editMode := \<not> editMode (fst w) \<rparr>, snd w) else w)"
| "handle_event readOnly isHtmlContent (ClickHighlight spanElement) attached w =
     Some (if has_click_listener attached spanElement
           then span_click_listener readOnly spanElement (fst w)
           else handleEmailBodyClick readOnly spanElement w, snd w)"
| "handle_event readOnly isHtmlContent (SelectType v) attached w =
     Some (if panel_shown (fst w) then handleSpanMetadataChange (fst w) (TypeKey, v)
           else fst w, snd w)"
| "handle_event readOnly isHtmlContent (Apply now) attached w =
     (if panel_shown (fst w) \<and> highlightedText (fst w) \<noteq> None
      then applySpanEdit isHtmlContent now w else Some w)"
| "handle_event readOnly isHtmlContent Cancel attached w =
     Some (if panel_shown (fst w) then cancelSpanEdit (fst w) else fst w, snd w)"

text \<open>One event with the commit that follows it, and a sequence of events.\<close>

definition ui_step ::
  "bool \<Rightarrow> bool \<Rightarrow> ui_event \<Rightarrow> (vstate \<times> heap) \<times> bool \<Rightarrow> ((vstate \<times> heap) \<times> bool) option" where
  "ui_step readOnly isHtmlContent e u =
     (case handle_event readOnly isHtmlContent e (snd u) (fst u) of
        None \<Rightarrow> None
      | Some w \<Rightarrow> Some (w, listeners_after isHtmlContent (fst (fst u)) (fst w) (snd u)))"

fun ui_run ::
  "bool \<Rightarrow> bool \<Rightarrow> ui_event list \<Rightarrow> (vstate \<times> heap) \<times> bool
     \<Rightarrow> ((vstate \<times> heap) \<times> bool) option" where
  "ui_run readOnly isHtmlContent [] u = Some u"
| "ui_run readOnly isHtmlContent (e # es) u =
     (case ui_step readOnly isHtmlContent e u of
        None \<Rightarrow> None
      | Some u1 \<Rightarrow> ui_run readOnly isHtmlContent es u1)"

section \<open>Selection capture: the resize handles\<close>

text \<open>
  The state of a drag lives in three local variables of the effect. \<open>dd_textNode\<close> is
  the value shown by the text node of the dragged highlight, if it has one.
\<close>

record drag_data =
  dd_spanId :: "string option"
  dd_spanText :: "string option"
  dd_initialX :: int
  dd_textNode :: "string option"
  dd_newStartOffset :: "int option"
  dd_newEndOffset :: "int option"

record drag_state =
  isDragging :: bool
  activeHandle :: "string option"
  originalSpanData :: "drag_data option"

definition no_drag :: drag_state where
  "no_drag = \<lparr> isDragging = False, activeHandle = None, originalSpanData = None \<rparr>"

text \<open>
  \<^verbatim>\<open>handleDragStart\<close> on a resize handle with the given \<^verbatim>\<open>handleType\<close>, inside the
  highlight element \<open>parentSpan\<close>, with the pointer at \<open>clientX\<close>.
\<close>

definition handleDragStart :: "bool \<Rightarrow> string \<Rightarrow> node \<Rightarrow> int \<Rightarrow> drag_state \<Rightarrow> drag_state" where
  "handleDragStart editMode_now handleType parentSpan clientX ds =
     (if \<not> editMode_now then ds
      else \<lparr> isDragging = True, activeHandle = Some handleType,
             originalSpanData =
               Some \<lparr> dd_spanId = dataset_of parentSpan ''spanId'',
                      dd_spanText = dataset_of parentSpan ''spanText'',
                      dd_initialX = clientX,
                      dd_textNode =
                        (case parentSpan of
                           TextNode t \<Rightarrow> None
                         | Element a cs \<Rightarrow>
                             (case List.find (\<lambda>n. case n of TextNode t \<Rightarrow> True | _ \<Rightarrow> False) cs of
                                Some (TextNode t) \<Rightarrow> Some t
                              | _ \<Rightarrow> None)),
                      dd_newStartOffset = None, dd_newEndOffset = None \<rparr> \<rparr>)"

text \<open>\<^verbatim>\<open>Math.round(xDiff / 8)\<close> for an integer \<open>xDiff\<close>: halves are rounded upwards.\<close>

definition charDiff :: "int \<Rightarrow> int" where
  "charDiff xDiff = (xDiff + 4) div 8"

text \<open>
  \<^verbatim>\<open>handleDrag\<close>: the new offset is written to \<^verbatim>\<open>spanData\<close>, a copy of
  \<^verbatim>\<open>originalSpanData\<close> made by object spread, which is dropped when the handler returns.
  Only the text shown by the text node changes. Without a \<^verbatim>\<open>spanText\<close> the handler
  throws on \<^verbatim>\<open>text.length\<close> and nothing changes.
\<close>

definition handleDrag :: "int \<Rightarrow> drag_state \<Rightarrow> drag_state" where
  "handleDrag clientX ds =
     (case (isDragging ds, activeHandle ds, originalSpanData ds) of
        (True, Some handleType, Some d) \<Rightarrow>
          (let c = charDiff (clientX - dd_initialX d);
               txt = or_else (dd_spanText d) [];
               n = int (length txt)
           in if dd_spanText d = None \<and> (handleType = ''start'' \<or> handleType = ''end'') then ds
              else if handleType = ''start'' then
                (let newStart = max 0 (min c (n - 1));
                     newText = substring_from txt newStart
                 in ds\<lparr> originalSpanData :=
                          Some (d\<lparr> dd_textNode := map_option (\<lambda>_. newText) (dd_textNode d) \<rparr>) \<rparr>)
              else if handleType = ''end'' then
                (let newEnd = max 1 (min n (n - c));
                     newText = substring txt 0 newEnd
                 in ds\<lparr> originalSpanData :=
                          Some (d\<lparr> dd_textNode := map_option (\<lambda>_. newText) (dd_textNode d) \<rparr>) \<rparr>)
              else ds)
      | _ \<Rightarrow> ds)"

text \<open>
  \<^verbatim>\<open>handleDragEnd\<close>: \<open>sps\<close> are the evidence spans of the selected prediction, \<open>None\<close>
  when no prediction is selected. An exception (no prediction, or no \<^verbatim>\<open>spanText\<close> to cut)
  leaves the handler before any update. An absent \<^verbatim>\<open>relative_start\<close> stays absent
  where JavaScript computes \<^verbatim>\<open>NaN\<close>.
\<close>

definition drag_result :: "string \<Rightarrow> drag_data \<Rightarrow> span \<Rightarrow> span option" where
  "drag_result handleType d originalSpan =
     (if handleType = ''start'' \<and> dd_newStartOffset d \<noteq> None then
        (case dd_spanText d of
           None \<Rightarrow> None
         | Some txt \<Rightarrow>
             Some (originalSpan\<lparr> s_relative_start :=
                                   map_option (\<lambda>r. r + the (dd_newStartOffset d))
                                     (s_relative_start originalSpan),
                                 s_text := Some (substring_from txt
                                                   (the (dd_newStartOffset d))) \<rparr>))
      else if handleType = ''end'' \<and> dd_newEndOffset d \<noteq> None then
        (case dd_spanText d of
           None \<Rightarrow> None
         | Some txt \<Rightarrow>
             Some (originalSpan\<lparr> s_relative_end :=
                                   map_option (\<lambda>r. r + the (dd_newEndOffset d))
                                     (s_relative_start originalSpan),
                                 s_text := Some (substring txt 0
                                                   (the (dd_newEndOffset d))) \<rparr>))
      else Some originalSpan)"

definition handleDragEnd ::
  "span list option \<Rightarrow> vstate \<times> drag_state \<Rightarrow> vstate \<times> drag_state" where
  "handleDragEnd sps w =
     (let (st, ds) = w in
      case (isDragging ds, activeHandle ds, originalSpanData ds) of
        (True, Some handleType, Some d) \<Rightarrow>
          (case sps of
             None \<Rightarrow> w
           | Some spans_of_prediction \<Rightarrow>
               (case List.find (\<lambda>sp. s_id sp = dd_spanId d) spans_of_prediction of
                  None \<Rightarrow> (st, no_drag)
                | Some originalSpan \<Rightarrow>
                    (case drag_result handleType d originalSpan of
                       None \<Rightarrow> w
                     | Some updatedSpan \<Rightarrow>
                         (st\<lparr> highlightedText := Some updatedSpan,
                              editPanelVisible := True \<rparr>, no_drag))))
      | _ \<Rightarrow> w)"

section \<open>A reference evaluator for child-step location paths\<close>

text \<open>
  The expressions that the resolver builds from a path such as \<^verbatim>\<open>/html/body/div[1]\<close>
  consist of child steps \<^verbatim>\<open>name\<close> or \<^verbatim>\<open>name[k]\<close>. For these the answer of an XPath
  engine is fixed by the document: a path with a leading slash starts at the document
  node, whatever the context node is, and any other path starts at the context node.
  The evaluator below covers this fragment (and the expression \<^verbatim>\<open>.\<close> on an element);
  it reports the empty expression, which no engine accepts, and everything outside the
  fragment as an error. The number of a step is kept exact; it is only compared with
  positions among the children.
\<close>

fun split_on :: "char \<Rightarrow> string \<Rightarrow> string list" where
  "split_on sep [] = [] # []"
| "split_on sep (c # cs) =
     (if c = sep then [] # split_on sep cs
      else (case split_on sep cs of [] \<Rightarrow> [c] # [] | w # ws \<Rightarrow> (c # w) # ws))"

definition is_name_char :: "char \<Rightarrow> bool" where
  "is_name_char c \<longleftrightarrow>
     (let n = (of_char c :: nat) in (97 \<le> n \<and> n \<le> 122) \<or> (48 \<le> n \<and> n \<le> 57))"

definition parse_step :: "string \<Rightarrow> (string \<times> nat option) option" where
  "parse_step s =
     (let name = takeWhile is_name_char s; r = dropWhile is_name_char s
      in if name = [] then None
         else if r = [] then Some (name, None)
         else (case bracketed [] r of
                 Some (ds, rest) \<Rightarrow> (if rest = [] then Some (name, Some (digits_value ds)) else None)
               | None \<Rightarrow> None))"

definition tag_of :: "node \<Rightarrow> string" where
  "tag_of n = (case n of TextNode t \<Rightarrow> [] | Element a cs \<Rightarrow> tagName a)"

text \<open>The children selected by one step, as indices in document order.\<close>

definition child_matches :: "string \<times> nat option \<Rightarrow> node list \<Rightarrow> nat list" where
  "child_matches st cs =
     (let idxs = filter (\<lambda>i. tag_of (cs ! i) = fst st) [0..<length cs]
      in case snd st of
           None \<Rightarrow> idxs
         | Some k \<Rightarrow> (if 1 \<le> k \<and> k \<le> length idxs then [idxs ! (k - 1)] else []))"

fun select_paths :: "(string \<times> nat option) list \<Rightarrow> node \<Rightarrow> path list" where
  "select_paths [] n = [] # []"
| "select_paths (st # sts) (TextNode t) = []"
| "select_paths (st # sts) (Element a cs) =
     concat (map (\<lambda>i. map ((#) i) (select_paths sts (cs ! i))) (child_matches st cs))"

definition first_of :: "path list \<Rightarrow> path evaluation" where
  "first_of ps = (case ps of [] \<Rightarrow> NoNode | p # rest \<Rightarrow> FirstNode p)"

text \<open>From the document node, whose only child is the root element.\<close>

definition from_document :: "node \<Rightarrow> (string \<times> nat option) list \<Rightarrow> path evaluation" where
  "from_document doc sts =
     (case sts of
        [] \<Rightarrow> NoNode
      | st # rest \<Rightarrow>
          (if tag_of doc = fst st \<and> (snd st = None \<or> snd st = Some 1)
           then first_of (select_paths rest doc) else NoNode))"

definition child_step_evaluator :: evaluator where
  "child_step_evaluator doc element x ctx =
     (if x = [] then Throws
      else if x = ''.'' then (case ctx of RenderingRoot \<Rightarrow> FirstNode element | WholeDocument \<Rightarrow> Throws)
      else
        (let absolute = startsWith x ''/'';
             steps = map parse_step (split_on (CHR ''/'') (if absolute then drop 1 x else x))
         in if None \<in> set steps then Throws
            else if absolute \<or> ctx = WholeDocument then from_document doc (map the steps)
            else (case node_at doc element of
                    None \<Rightarrow> NoNode
                  | Some n \<Rightarrow> first_of (map ((@) element) (select_paths (map the steps) n)))))"

text \<open>The number of highlight elements in a document.\<close>

fun count_highlights :: "node \<Rightarrow> nat" where
  "count_highlights (TextNode t) = 0"
| "count_highlights (Element a cs) =
     (if startsWith (className a) ''evidence-span'' then 1 else 0) +
     sum_list (map count_highlights cs)"


text \<open>The number of resize handles in a document.\<close>

fun count_handles :: "node \<Rightarrow> nat" where
  "count_handles (TextNode t) = 0"
| "count_handles (Element a cs) =
     (if startsWith (className a) ''resize-handle'' then 1 else 0) +
     sum_list (map count_handles cs)"
section \<open>Well-formed stores\<close>

text \<open>
  In a JavaScript heap every reference leads to an object. The store of the model
  allocates at \<open>nxt\<close>, so every address in use lies below it; and the arrays of the
  ledger are the ones \<^verbatim>\<open>applySpanEdit\<close> allocated, never the evidence list of a
  prediction.
\<close>

definition heap_closed :: "heap \<Rightarrow> bool" where
  "heap_closed h \<longleftrightarrow>
     (\<forall>a xs. arrays h a = Some xs \<longrightarrow> a < nxt h \<and> (\<forall>x\<in>set xs. x \<in> dom (spans h))) \<and>
     (\<forall>a\<in>dom (spans h). a < nxt h) \<and>
     (\<forall>p pr. preds h p = Some pr \<longrightarrow> evidence_spans pr \<in> dom (arrays h))"

definition ledger_separate :: "ledger \<Rightarrow> heap \<Rightarrow> bool" where
  "ledger_separate fd h \<longleftrightarrow>
     (\<forall>(k, fb)\<in>set fd.
        evidence_spans (corrected_value fb) \<in> dom (arrays h) \<and>
        (\<forall>p pr. preds h p = Some pr \<longrightarrow>
           evidence_spans (corrected_value fb) \<noteq> evidence_spans pr))"

definition world_ok :: "vstate \<times> heap \<Rightarrow> bool" where
  "world_ok w \<longleftrightarrow>
     (let (st, h) = w in
      heap_closed h \<and> ledger_separate (feedbackData st) h \<and>
      (\<forall>p. selectedPrediction st = Some p \<longrightarrow> p \<in> dom (preds h)) \<and>
      (\<forall>r. activeSpan st = Some (ASpan r) \<longrightarrow> r \<in> dom (spans h)))"

definition unchanged_below :: "heap \<Rightarrow> heap \<Rightarrow> bool" where
  "unchanged_below h h' \<longleftrightarrow>
     preds h' = preds h \<and> (\<forall>a\<in>dom (spans h). spans h' a = spans h a) \<and> nxt h \<le> nxt h'"

text \<open>The evidence list of the correction record of a prediction, read from the store.\<close>

definition ledger_spans :: "string \<Rightarrow> vstate \<times> heap \<Rightarrow> span list option" where
  "ledger_spans pid w =
     (let (st, h) = w in
      case map_of (feedbackData st) pid of
        None \<Rightarrow> None
      | Some fb \<Rightarrow>
          (case arrays h (evidence_spans (corrected_value fb)) of
             None \<Rightarrow> None
           | Some xs \<Rightarrow> deref_all (spans h) xs))"

text \<open>
  The state in which \<^verbatim>\<open>applySpanEdit\<close> is entered for an edit of the span at \<open>r\<close>:
  edit mode is on, the click on the highlight has made the span active, and the
  candidate \<open>cand\<close> is pending.
\<close>

definition begin_edit :: "addr \<Rightarrow> span \<Rightarrow> vstate \<Rightarrow> vstate" where
  "begin_edit r cand st =
     st\<lparr> editMode := True, activeSpan := Some (ASpan r), highlightedText := Some cand \<rparr>"

text \<open>The record of a prediction after a session that starts when the component mounts.\<close>

definition record_after :: "bool \<Rightarrow> bool \<Rightarrow> ui_event list \<Rightarrow> heap \<Rightarrow> string \<Rightarrow> span list option" where
  "record_after readOnly isHtmlContent es h pid =
     (case ui_run readOnly isHtmlContent es ((initial_state, h), False) of
        None \<Rightarrow> None
      | Some u \<Rightarrow> ledger_spans pid (fst u))"

section \<open>Concrete inputs\<close>

text \<open>A prediction with one structural evidence span, selected, in a fresh session.\<close>

definition span_S :: span where
  "span_S = no_span\<lparr> s_id := Some ''s1'', s_type := Some ''intent'',
     s_xpath := Some ''/html/body/p'', s_relative_start := Some 0,
     s_relative_end := Some 5, s_text := Some ''Hello'' \<rparr>"

definition pred_P :: prediction where
  "pred_P = \<lparr> prediction_id = ''p1'', intent = ''request_update'',
     action = ''provide_status'', artefact_type = ''trade'',
     artefact_details = [(''currency'', ''USD'')], evidence_spans = 1 \<rparr>"

definition heap_0 :: heap where
  "heap_0 = \<lparr> preds = [0 \<mapsto> pred_P], spans = [2 \<mapsto> span_S], arrays = [1 \<mapsto> [2]], nxt = 3 \<rparr>"

definition state_0 :: vstate where
  "state_0 = initial_state\<lparr> selectedPrediction := Some 0 \<rparr>"

text \<open>A candidate for the span.\<close>

definition cand_1 :: span where
  "cand_1 = span_S\<lparr> s_relative_end := Some 8, s_text := Some ''Hello wo'' \<rparr>"

text \<open>A ledger with one correction record.\<close>

definition ledger_1 :: ledger where
  "ledger_1 = [(''p1'', \<lparr> fb_prediction_id = ''p1'',
                          corrected_value = pred_P\<lparr> evidence_spans := 3 \<rparr> \<rparr>)]"

text \<open>
  A host page around the component: the heading of the application, and the email body
  element at \<open>body_ref\<close>. The email is \<^verbatim>\<open><p>Hi</p>\<close>; the evidence span was captured
  on another structure, under \<^verbatim>\<open>/html/body/div[1]\<close>.
\<close>

definition el :: "string \<Rightarrow> string \<Rightarrow> node list \<Rightarrow> node" where
  "el tag cls kids =
     Element \<lparr> tagName = tag, className = cls, title = [], dataset = [],
               attributes = [] \<rparr> kids"

definition email_section :: "node list \<Rightarrow> node" where
  "email_section body_kids =
     el ''div'' ''email-section''
       [el ''div'' ''email-header'' [el ''h3'' [] [TextNode ''No Subject'']],
        el ''div'' ''email-body html-content '' body_kids]"

definition host_page :: "node list \<Rightarrow> node list \<Rightarrow> node" where
  "host_page heading body_kids =
     el ''html'' []
       [el ''head'' [] [],
        el ''body'' []
          [el ''div'' []
             [el ''div'' ''app light''
                [el ''header'' ''app-header'' [el ''h1'' [] heading],
                 el ''main'' ''app-main''
                   [el ''div'' ''email-intent-visualizer light ''
                      [el ''div'' ''visualizer-container'' [email_section body_kids]]]]]]]"

definition body_ref :: path where
  "body_ref = [1, 0, 0, 1, 0, 0, 0, 1]"

definition email_html :: string where
  "email_html = ''<p>Hi</p>''"

definition parse_email :: "string \<Rightarrow> node list" where
  "parse_email s = (if s = ''<p>Hi</p>'' then [el ''p'' [] [TextNode ''Hi'']] else [])"

definition span_D :: span where
  "span_D = no_span\<lparr> s_type := Some ''intent'', s_xpath := Some ''/html/body/div[1]'',
     s_relative_start := Some 0, s_relative_end := Some 5, s_text := Some ''Hello'' \<rparr>"

definition heap_D :: heap where
  "heap_D = \<lparr> preds = [0 \<mapsto> pred_P], spans = [2 \<mapsto> span_D], arrays = [1 \<mapsto> [2]], nxt = 3 \<rparr>"

definition rerender_D :: "(string \<Rightarrow> string) \<Rightarrow> node \<Rightarrow> node" where
  "rerender_D big doc =
     html_rerender big parse_email child_step_evaluator True email_html (Some body_ref)
       state_0 heap_D doc"

text \<open>
  The markup \<^verbatim>\<open><p>Hi</p><img src=x onerror=alert(1)>\<close>. The HTML parser puts both
  elements into the body, the image with its two attributes. The sanitizer keeps the
  image and its source and drops the event handler; it answers
  \<^verbatim>\<open><p>Hi</p><img src="x">\<close>.
\<close>

definition unsafe_html :: string where
  "unsafe_html = ''<p>Hi</p><img src=x onerror=alert(1)>''"

definition sanitized_html :: string where
  "sanitized_html = ''<p>Hi</p><img src='' @ [CHR 34] @ ''x'' @ [CHR 34] @ ''>''"

definition sanitize_0 :: "string \<Rightarrow> string" where
  "sanitize_0 s = (if s = unsafe_html then sanitized_html else s)"

definition img :: "(string \<times> string) list \<Rightarrow> node" where
  "img atts =
     Element \<lparr> tagName = ''img'', className = [], title = [], dataset = [],
               attributes = atts \<rparr> []"

definition parse_0 :: "string \<Rightarrow> node list" where
  "parse_0 s =
     (if s = unsafe_html
      then [el ''p'' [] [TextNode ''Hi''], img [(''src'', ''x''), (''onerror'', ''alert(1)'')]]
      else if s = sanitized_html
      then [el ''p'' [] [TextNode ''Hi''], img [(''src'', ''x'')]]
      else [])"

text \<open>
  A span whose text occurs twice in the text node \<^verbatim>\<open>ab ab\<close>; its offsets bound the
  second occurrence.
\<close>

definition span_ab :: span where
  "span_ab = no_span\<lparr> s_xpath := Some ''/html/body/p'', s_relative_start := Some 3,
     s_relative_end := Some 5, s_text := Some ''ab'' \<rparr>"


text \<open>
  The email \<^verbatim>\<open><p>Hello world</p>\<close> with the span \<open>span_S\<close> on its first five
  characters, in the state after the user has turned edit mode on and clicked the
  highlight of the span.
\<close>

definition hello_html :: string where
  "hello_html = ''<p>Hello world</p>''"

definition parse_hello :: "string \<Rightarrow> node list" where
  "parse_hello s =
     (if s = ''<p>Hello world</p>'' then [el ''p'' [] [TextNode ''Hello world'']] else [])"

definition page_hello :: node where
  "page_hello = host_page [TextNode ''Email Intent Visualizer''] (parse_hello hello_html)"

definition highlight_S :: node where
  "highlight_S = highlight_element None span_S 0 ''Hello''"

definition editing_S :: vstate where
  "editing_S = handleEmailBodyClick False highlight_S (state_0\<lparr> editMode := True \<rparr>, heap_0)"

text \<open>
  Two sessions on that email, in a viewer that is not read-only. In the first the user
  edits the span twice in the plain way: "Edit Evidence", a click on the highlight, a
  new type, "Apply". In the second the second edit takes a detour: after the click on
  the highlight the user clicks the card of the prediction, which leaves edit mode and
  keeps the pending candidate; "Edit Evidence" and another click on the card change
  edit mode without a rebuild of the body, so that the highlights get their click
  listener; the next click on the highlight is taken by that listener; "Edit Evidence"
  opens the panel again, and the user chooses a type and applies.
\<close>

definition plain_session :: "ui_event list" where
  "plain_session =
     [SelectPrediction 0,
      EditEvidence, ClickHighlight highlight_S, SelectType ''action'', Apply 1000,
      EditEvidence, ClickHighlight highlight_S, SelectType ''artefact_detail'', Apply 2000]"

definition detour_session :: "ui_event list" where
  "detour_session =
     [SelectPrediction 0,
      EditEvidence, ClickHighlight highlight_S, SelectType ''action'', Apply 1000,
      EditEvidence, ClickHighlight highlight_S, SelectPrediction 0,
      EditEvidence, SelectPrediction 0, ClickHighlight highlight_S,
      EditEvidence, SelectType ''artefact_detail'', Apply 2000]"

text \<open>
  A prediction without evidence spans, and the host page as React has rendered it for
  the unsafe markup and for the email \<^verbatim>\<open><p>Hi</p>\<close>.
\<close>

definition heap_E :: heap where
  "heap_E = \<lparr> preds = [0 \<mapsto> pred_P], spans = Map.empty, arrays = [1 \<mapsto> []], nxt = 2 \<rparr>"

definition page_unsafe :: node where
  "page_unsafe =
     host_page [TextNode ''Email Intent Visualizer'']
       (childNodes_of (renderEmailContent_html sanitize_0 parse_0 False unsafe_html))"

definition page_D :: node where
  "page_D = host_page [TextNode ''Email Intent Visualizer''] (parse_email email_html)"


section \<open>The correction ledger keeps the predictions intact\<close>

lemma deref_all_Some:
  "\<forall>x\<in>set xs. x \<in> dom m \<Longrightarrow> \<exists>ys. deref_all m xs = Some ys"
  by (induction xs) (auto split: option.splits)

lemma update_set:
  "(k', v') \<in> set (AList.update k v al) \<Longrightarrow> (k', v') = (k, v) \<or> (k', v') \<in> set al"
  by (induction al) (auto split: if_splits)

lemma init_feedback_ok:
  assumes "heap_closed h" "ledger_separate fd h" "preds h p = Some pr"
  shows "\<exists>fd' h1 fb. init_feedback pr fd h = Some (fd', h1) \<and>
           map_of fd' (prediction_id pr) = Some fb \<and>
           heap_closed h1 \<and> ledger_separate fd' h1 \<and> unchanged_below h h1 \<and>
           spans h1 = spans h \<and>
           (\<forall>a\<in>dom (arrays h). arrays h1 a = arrays h a)"
proof (cases "map_of fd (prediction_id pr)")
  case (Some fb)
  then show ?thesis using assms by (simp add: init_feedback_def unchanged_below_def)
next
  case None
  from assms(1,3) have "evidence_spans pr \<in> dom (arrays h)"
    unfolding heap_closed_def by blast
  then obtain xs where xs: "arrays h (evidence_spans pr) = Some xs"
    by auto
  let ?h1 = "h\<lparr> arrays := (arrays h)(nxt h \<mapsto> xs), nxt := Suc (nxt h) \<rparr>"
  let ?fb = "\<lparr> fb_prediction_id = prediction_id pr,
               corrected_value = pr\<lparr> evidence_spans := nxt h \<rparr> \<rparr>"
  let ?fd = "AList.update (prediction_id pr) ?fb fd"
  have fresh: "nxt h \<notin> dom (arrays h)" using assms(1) by (auto simp: heap_closed_def)
  have eq: "init_feedback pr fd h = Some (?fd, ?h1)"
    using None xs by (simp add: init_feedback_def new_array_def)
  have m: "map_of ?fd (prediction_id pr) = Some ?fb" by (simp add: update_conv')
  have c: "heap_closed ?h1" using assms(1) xs
    by (auto simp: heap_closed_def less_Suc_eq split: if_splits)
  have s: "ledger_separate ?fd ?h1"
    unfolding ledger_separate_def
  proof (intro ballI, clarify)
    fix k fb assume "(k, fb) \<in> set ?fd"
    then consider "fb = ?fb" | "(k, fb) \<in> set fd" using update_set by fastforce
    then show "evidence_spans (corrected_value fb) \<in> dom (arrays ?h1) \<and>
       (\<forall>p pr. preds ?h1 p = Some pr \<longrightarrow>
          evidence_spans (corrected_value fb) \<noteq> evidence_spans pr)"
    proof cases
      case 1
      have "\<forall>p pr. preds h p = Some pr \<longrightarrow> evidence_spans pr \<noteq> nxt h"
        using assms(1) fresh unfolding heap_closed_def by metis
      then have c: "\<forall>p pr. preds ?h1 p = Some pr \<longrightarrow> nxt h \<noteq> evidence_spans pr"
        by (simp add: eq_commute [of "nxt h"])
      have a: "evidence_spans (corrected_value fb) = nxt h" using 1 by simp
      have b: "nxt h \<in> dom (arrays ?h1)" by simp
      show ?thesis unfolding a using b c by (rule conjI)
    next
      case 2
      then show ?thesis using assms(2) by (auto simp: ledger_separate_def)
    qed
  qed
  have u: "unchanged_below h ?h1" by (simp add: unchanged_below_def)
  have a: "\<forall>a\<in>dom (arrays h). arrays ?h1 a = arrays h a" using fresh by auto
  show ?thesis using eq m c s u a by auto
qed

lemma new_span_store:
  fixes s :: span
  assumes "heap_closed h" "arrays h ca = Some xs" "set ys \<subseteq> insert (nxt h) (set xs)"
  defines "h2 \<equiv> (snd (new_span s h))\<lparr> arrays := (arrays (snd (new_span s h)))(ca \<mapsto> ys) \<rparr>"
  shows "heap_closed h2 \<and> unchanged_below h h2 \<and>
         (\<forall>a. a \<noteq> ca \<longrightarrow> arrays h2 a = arrays h a) \<and> dom (arrays h2) = dom (arrays h)"
proof -
  have fresh: "nxt h \<notin> dom (spans h)" using assms(1) by (auto simp: heap_closed_def)
  have ca: "ca < nxt h" using assms(1,2) by (auto simp: heap_closed_def)
  have xs: "\<forall>x\<in>set xs. x \<in> dom (spans h)"
    using assms(1,2) unfolding heap_closed_def by blast
  have 1: "heap_closed h2"
    using assms(1) ca xs assms(3) unfolding heap_closed_def h2_def new_span_def
    by (auto simp: less_Suc_eq split: if_splits)
  have 2: "unchanged_below h h2" using fresh
    by (auto simp: unchanged_below_def h2_def new_span_def)
  have 3: "\<forall>a. a \<noteq> ca \<longrightarrow> arrays h2 a = arrays h a"
    by (simp add: h2_def new_span_def)
  have 4: "dom (arrays h2) = dom (arrays h)" using assms(2)
    by (auto simp: h2_def new_span_def)
  show ?thesis using 1 2 3 4 by simp
qed

lemma edit_existing_ok:
  assumes "heap_closed h" "ca \<in> dom (arrays h)"
  shows "\<exists>h2. edit_existing same backref a ht ca h = Some h2 \<and> heap_closed h2 \<and>
           unchanged_below h h2 \<and> (\<forall>x. x \<noteq> ca \<longrightarrow> arrays h2 x = arrays h x) \<and>
           dom (arrays h2) = dom (arrays h)"
proof -
  from assms(2) obtain xs where xs: "arrays h ca = Some xs" by auto
  have "\<forall>x\<in>set xs. x \<in> dom (spans h)"
    using assms(1) xs unfolding heap_closed_def by blast
  then obtain objs where objs: "deref_all (spans h) xs = Some objs"
    using deref_all_Some by blast
  show ?thesis
  proof (cases "findIndex (same a) objs")
    case None
    have sub: "set (xs @ [nxt h]) \<subseteq> insert (nxt h) (set xs)" by auto
    have eq: "edit_existing same backref a ht ca h =
       Some ((snd (new_span (backref a ht) h))\<lparr> arrays :=
          (arrays (snd (new_span (backref a ht) h)))(ca \<mapsto> xs @ [nxt h]) \<rparr>)"
      using xs objs None by (simp add: edit_existing_def new_span_def)
    show ?thesis using new_span_store [OF assms(1) xs sub, of "backref a ht"] eq by simp
  next
    case (Some i)
    have sub: "set (xs[i := nxt h]) \<subseteq> insert (nxt h) (set xs)"
      by (rule set_update_subset_insert)
    have eq: "edit_existing same backref a ht ca h =
       Some ((snd (new_span (spread (objs ! i) ht) h))\<lparr> arrays :=
          (arrays (snd (new_span (spread (objs ! i) ht) h)))(ca \<mapsto> xs[i := nxt h]) \<rparr>)"
      using xs objs Some by (simp add: edit_existing_def new_span_def)
    show ?thesis
      using new_span_store [OF assms(1) xs sub, of "spread (objs ! i) ht"] eq by simp
  qed
qed

lemma add_new_ok:
  assumes "heap_closed h" "ca \<in> dom (arrays h)"
  shows "\<exists>h2. add_new now ht ca h = Some h2 \<and> heap_closed h2 \<and>
           unchanged_below h h2 \<and> (\<forall>x. x \<noteq> ca \<longrightarrow> arrays h2 x = arrays h x) \<and>
           dom (arrays h2) = dom (arrays h)"
proof -
  from assms(2) obtain xs where xs: "arrays h ca = Some xs" by auto
  have sub: "set (xs @ [nxt h]) \<subseteq> insert (nxt h) (set xs)" by auto
  let ?s = "ht\<lparr> s_id := Some (''new-'' @ dec now) \<rparr>"
  have eq: "add_new now ht ca h =
     Some ((snd (new_span ?s h))\<lparr> arrays :=
        (arrays (snd (new_span ?s h)))(ca \<mapsto> xs @ [nxt h]) \<rparr>)"
    using xs by (simp add: add_new_def new_span_def)
  show ?thesis using new_span_store [OF assms(1) xs sub] eq by simp
qed

lemma active_fields_ok:
  assumes "truthy_active act" "\<forall>r. act = Some (ASpan r) \<longrightarrow> r \<in> dom (spans h)"
  shows "\<exists>a. active_fields h (the act) = Some a"
  using assms
  by (auto simp: truthy_active_def active_fields_def split: option.splits active.splits)

lemma edit_step_ok:
  fixes ht :: span and now :: nat and isHtml :: bool
  assumes "heap_closed h" "ca \<in> dom (arrays h)"
    "\<forall>r. act = Some (ASpan r) \<longrightarrow> r \<in> dom (spans h)"
  defines "r \<equiv> (if truthy_active act then
                   (case active_fields h (the act) of
                      None \<Rightarrow> None
                    | Some a \<Rightarrow>
                        (if isHtml
                         then edit_existing same_html_identity (html_backref now) a ht ca h
                         else edit_existing same_plain_identity (plain_backref now) a ht ca h))
                 else add_new now ht ca h)"
  shows "\<exists>h2. r = Some h2 \<and> heap_closed h2 \<and>
           unchanged_below h h2 \<and> (\<forall>x. x \<noteq> ca \<longrightarrow> arrays h2 x = arrays h x) \<and>
           dom (arrays h2) = dom (arrays h)"
proof (cases "truthy_active act")
  case True
  then obtain a where a: "active_fields h (the act) = Some a"
    using active_fields_ok assms(3) by blast
  show ?thesis
  proof (cases isHtml)
    case True
    with \<open>truthy_active act\<close> a
    have "r = edit_existing same_html_identity (html_backref now) a ht ca h"
      by (simp add: r_def)
    then show ?thesis using edit_existing_ok [OF assms(1,2)] by simp
  next
    case False
    with \<open>truthy_active act\<close> a
    have "r = edit_existing same_plain_identity (plain_backref now) a ht ca h"
      by (simp add: r_def)
    then show ?thesis using edit_existing_ok [OF assms(1,2)] by simp
  qed
next
  case False
  then have "r = add_new now ht ca h" by (simp add: r_def)
  then show ?thesis using add_new_ok [OF assms(1,2)] by simp
qed

text \<open>
  On a well-formed store \<^verbatim>\<open>applySpanEdit\<close> returns, the store stays well-formed, and
  nothing that existed before is written except the array of the correction record.
\<close>

lemma applySpanEdit_frame:
  assumes "world_ok (st, h)"
  shows "\<exists>st' h'. applySpanEdit isHtml now (st, h) = Some (st', h') \<and> world_ok (st', h') \<and>
           preds h' = preds h \<and> (\<forall>a\<in>dom (spans h). spans h' a = spans h a) \<and>
           (\<forall>p pr. preds h p = Some pr \<longrightarrow>
              arrays h' (evidence_spans pr) = arrays h (evidence_spans pr))"
proof -
  from assms have hc: "heap_closed h" and ls: "ledger_separate (feedbackData st) h"
    and sp: "\<forall>p. selectedPrediction st = Some p \<longrightarrow> p \<in> dom (preds h)"
    and as: "\<forall>r. activeSpan st = Some (ASpan r) \<longrightarrow> r \<in> dom (spans h)"
    by (simp_all add: world_ok_def)
  show ?thesis
  proof (cases "selectedPrediction st = None \<or> highlightedText st = None")
    case True
    then have "applySpanEdit isHtml now (st, h) = Some (st, h)"
      by (auto simp: applySpanEdit_def split: option.splits)
    then show ?thesis using assms by simp
  next
    case False
    then obtain p ht where p: "selectedPrediction st = Some p"
      and ht: "highlightedText st = Some ht"
      by auto
    from sp p obtain pr where pr: "preds h p = Some pr" by auto
    from init_feedback_ok [OF hc ls pr] obtain fd h1 fb where
      i: "init_feedback pr (feedbackData st) h = Some (fd, h1)" and
      m: "map_of fd (prediction_id pr) = Some fb" and
      hc1: "heap_closed h1" and ls1: "ledger_separate fd h1" and
      u1: "unchanged_below h h1" and
      s1: "spans h1 = spans h" and a1: "\<forall>a\<in>dom (arrays h). arrays h1 a = arrays h a"
      by blast
    let ?ca = "evidence_spans (corrected_value fb)"
    have mem: "(prediction_id pr, fb) \<in> set fd" using m by (rule map_of_SomeD)
    have ca: "?ca \<in> dom (arrays h1)" and
      sep: "\<forall>p pr. preds h1 p = Some pr \<longrightarrow> ?ca \<noteq> evidence_spans pr"
      using ls1 mem unfolding ledger_separate_def by blast+
    have as1: "\<forall>r. activeSpan st = Some (ASpan r) \<longrightarrow> r \<in> dom (spans h1)"
      using as s1 by simp
    let ?r = "(if truthy_active (activeSpan st) then
                   (case active_fields h1 (the (activeSpan st)) of
                      None \<Rightarrow> None
                    | Some a \<Rightarrow>
                        (if isHtml
                         then edit_existing same_html_identity (html_backref now) a ht ?ca h1
                         else edit_existing same_plain_identity (plain_backref now) a ht ?ca h1))
                 else add_new now ht ?ca h1)"
    from edit_step_ok [OF hc1 ca as1] obtain h2 where
      r: "?r = Some h2" and hc2: "heap_closed h2" and u2: "unchanged_below h1 h2" and
      a2: "\<forall>x. x \<noteq> ?ca \<longrightarrow> arrays h2 x = arrays h1 x" and
      d2: "dom (arrays h2) = dom (arrays h1)"
      by blast
    let ?st = "st\<lparr> feedbackData := fd, editMode := False, activeSpan := None,
                   highlightedText := None \<rparr>"
    have eq: "applySpanEdit isHtml now (st, h) = Some (?st, h2)"
      using p ht pr i m r by (simp add: applySpanEdit_def Let_def)
    have pe: "preds h2 = preds h" using u1 u2 by (simp add: unchanged_below_def)
    have se: "\<forall>a\<in>dom (spans h). spans h2 a = spans h a"
      using u1 u2 s1 by (simp add: unchanged_below_def)
    have ae: "\<forall>p pr. preds h p = Some pr \<longrightarrow>
              arrays h2 (evidence_spans pr) = arrays h (evidence_spans pr)"
    proof (intro allI impI)
      fix q qr assume q: "preds h q = Some qr"
      then have "preds h1 q = Some qr" using u1 by (simp add: unchanged_below_def)
      then have "evidence_spans qr \<noteq> ?ca" using sep by metis
      then have "arrays h2 (evidence_spans qr) = arrays h1 (evidence_spans qr)"
        using a2 by simp
      moreover have "evidence_spans qr \<in> dom (arrays h)"
        using hc q unfolding heap_closed_def by blast
      ultimately show "arrays h2 (evidence_spans qr) = arrays h (evidence_spans qr)"
        using a1 by simp
    qed
    have ls2: "ledger_separate fd h2"
      using ls1 d2 u2 by (simp add: ledger_separate_def unchanged_below_def)
    have ok: "world_ok (?st, h2)"
      using hc2 ls2 sp p pe by (simp add: world_ok_def)
    show ?thesis using eq ok pe se ae by blast
  qed
qed

text \<open>
  A session starts with an empty ledger and nothing selected, and that state is
  well-formed on every closed store; selecting a prediction of the store keeps it so.
\<close>

lemma world_ok_initial: "heap_closed h \<Longrightarrow> world_ok (initial_state, h)"
  by (simp add: world_ok_def initial_state_def ledger_separate_def)

lemma handlePredictionSelect_ok:
  "world_ok (st, h) \<Longrightarrow> p \<in> dom (preds h) \<Longrightarrow> world_ok (handlePredictionSelect p st, h)"
  by (simp add: world_ok_def handlePredictionSelect_def)

lemma begin_edit_ok:
  assumes "world_ok (st, h)" "r \<in> dom (spans h)"
  shows "world_ok (begin_edit r cand st, h)"
  using assms by (simp add: world_ok_def begin_edit_def)

lemma world_ok_example: "world_ok (begin_edit 2 cand_1 state_0, heap_0)"
  by (simp add: world_ok_def begin_edit_def state_0_def initial_state_def heap_0_def
      heap_closed_def ledger_separate_def pred_P_def)

text \<open>
  Claim C8. Every edit applied through \<^verbatim>\<open>applySpanEdit\<close>, whichever branch it takes
  (update of an existing entry, append with a back-reference, append of a new span),
  returns and leaves the prediction objects, the evidence list of every prediction and
  every span object that existed before unchanged: the writes go to the array of the
  correction record and to newly allocated span objects.
\<close>

theorem applySpanEdit_keeps_predictions:
  assumes "world_ok (st, h)"
  shows "\<exists>st' h'. applySpanEdit isHtml now (st, h) = Some (st', h') \<and>
           preds h' = preds h \<and> (\<forall>a\<in>dom (spans h). spans h' a = spans h a) \<and>
           (\<forall>p pr. preds h p = Some pr \<longrightarrow>
              arrays h' (evidence_spans pr) = arrays h (evidence_spans pr))"
  using applySpanEdit_frame [OF assms] by blast

text \<open>
  Witness for C8: the first edit of the span of the example prediction, in a fresh
  session.
\<close>

theorem applySpanEdit_keeps_predictions_witness:
  "world_ok (begin_edit 2 cand_1 state_0, heap_0) \<and>
   (\<exists>st' h'. applySpanEdit True 1000 (begin_edit 2 cand_1 state_0, heap_0) = Some (st', h') \<and>
      preds h' = preds heap_0 \<and> (\<forall>a\<in>dom (spans heap_0). spans h' a = spans heap_0 a) \<and>
      (\<forall>p pr. preds heap_0 p = Some pr \<longrightarrow>
         arrays h' (evidence_spans pr) = arrays heap_0 (evidence_spans pr)))"
  using applySpanEdit_keeps_predictions [OF world_ok_example, of True 1000]
    world_ok_example by blast

section \<open>Two edits of the same span\<close>

text \<open>
  In the plain session the second edit finds the entry of the span at its place in the
  record and overwrites it: one entry, with the values of the second edit.
\<close>

lemma plain_session_one_entry:
  "record_after False True plain_session heap_0 ''p1'' =
     Some [span_S\<lparr> s_type := Some ''artefact_detail'' \<rparr>]"
  by code_simp

text \<open>
  Claim C1, at a failing input. In the session with the detour the second edit is
  applied while \<^verbatim>\<open>activeSpan\<close> is the id string of the highlight of the span. A string
  has no path and no offsets, so no entry of the record matches and the candidate is
  appended: the record of the prediction ends with two entries that have the path and
  the offsets of the span, the first with the values of the first edit.
\<close>

theorem second_edit_appends_entry:
  "record_after False True detour_session heap_0 ''p1'' =
     Some [span_S\<lparr> s_type := Some ''action'' \<rparr>,
           span_S\<lparr> s_id := Some ''corrected-2000'', s_type := Some ''artefact_detail'' \<rparr>] \<and>
   same_html_identity span_S (span_S\<lparr> s_type := Some ''action'' \<rparr>) \<and>
   same_html_identity span_S
     (span_S\<lparr> s_id := Some ''corrected-2000'', s_type := Some ''artefact_detail'' \<rparr>)"
proof -
  have 1: "record_after False True detour_session heap_0 ''p1'' =
     Some [span_S\<lparr> s_type := Some ''action'' \<rparr>,
           span_S\<lparr> s_id := Some ''corrected-2000'', s_type := Some ''artefact_detail'' \<rparr>]"
    by code_simp
  have 2: "same_html_identity span_S (span_S\<lparr> s_type := Some ''action'' \<rparr>)"
    by (simp add: same_html_identity_def)
  have 3: "same_html_identity span_S
     (span_S\<lparr> s_id := Some ''corrected-2000'', s_type := Some ''artefact_detail'' \<rparr>)"
    by (simp add: same_html_identity_def)
  from 1 2 3 show ?thesis by (intro conjI)
qed

text \<open>
  Before the last two events of that session the highlights carry no listener any
  more, the panel is open, the active span is the id string and the pending candidate
  is the one of the earlier click.
\<close>

lemma detour_reaches_id_string:
  "map_option (\<lambda>u. (activeSpan (fst (fst u)), highlightedText (fst (fst u)),
                     panel_shown (fst (fst u)), snd u))
     (ui_run False True (take 12 detour_session) ((initial_state, heap_0), False)) =
   Some (Some (AId ''s1''), Some span_S, True, False)"
  by code_simp

text \<open>
  The same for every record whose entries have a path: an edit applied while
  \<^verbatim>\<open>activeSpan\<close> is an id string appends the candidate.
\<close>

lemma findIndex_None: "\<forall>x\<in>set xs. \<not> P x \<Longrightarrow> findIndex P xs = None"
  by (induction xs) auto

lemma id_string_edit_appends:
  assumes "arrays h ca = Some xs" "deref_all (spans h) xs = Some objs"
    and "\<forall>s\<in>set objs. s_xpath s \<noteq> None"
  shows "active_fields h (AId i) = Some no_span \<and>
         edit_existing same_html_identity (html_backref now) no_span ht ca h =
           Some (h\<lparr> spans := (spans h)(nxt h \<mapsto> html_backref now no_span ht),
                    nxt := Suc (nxt h), arrays := (arrays h)(ca \<mapsto> xs @ [nxt h]) \<rparr>)"
proof -
  have "\<forall>s\<in>set objs. \<not> same_html_identity no_span s"
    using assms(3) by (auto simp: same_html_identity_def no_span_def)
  then have "findIndex (same_html_identity no_span) objs = None" by (rule findIndex_None)
  then show ?thesis
    using assms(1,2) by (simp add: edit_existing_def new_span_def active_fields_def)
qed

text \<open>
  The highlight clicked in the two sessions is the one the renderer builds for the
  span while it is not the active one, and its flag lets the listener effect put the
  click listener on it.
\<close>

lemma highlight_S_rendered:
  "node_at (html_rerender big parse_hello child_step_evaluator True hello_html (Some body_ref)
              state_0 heap_0 page_hello) (body_ref @ [0, 0, 1]) = Some highlight_S \<and>
   has_click_listener True highlight_S"
  by code_simp

section \<open>Controller: active span and submission\<close>

text \<open>
  Claim C9, at a failing input. With the span at address 2 active and an edit in
  progress, \<^verbatim>\<open>cancelSpanEdit\<close> leaves the active span set.
\<close>

theorem cancelSpanEdit_keeps_activeSpan:
  "activeSpan (cancelSpanEdit (begin_edit 2 cand_1 state_0)) = Some (ASpan 2)"
  by (simp add: cancelSpanEdit_def begin_edit_def state_0_def initial_state_def)

text \<open>The other two operations of the claim do clear the active span.\<close>

lemma handlePredictionSelect_clears: "activeSpan (handlePredictionSelect p st) = None"
  by (simp add: handlePredictionSelect_def)

lemma handleSubmitFeedback_clears:
  "feedbackData st \<noteq> [] \<Longrightarrow> sink (feedbackData st) = Returned r \<Longrightarrow>
   activeSpan (fst (handleSubmitFeedback sink st)) = None"
  by (simp add: handleSubmitFeedback_def)

text \<open>
  Claim C3 as stated fails: a sink that returns a promise which is later rejected has
  its ledger emptied all the same.
\<close>

theorem submit_rejected_counterexample:
  "feedbackData (fst (handleSubmitFeedback (\<lambda>l. Returned Rejected)
      (state_0\<lparr> feedbackData := ledger_1 \<rparr>))) \<noteq> ledger_1"
  by (simp add: handleSubmitFeedback_def state_0_def initial_state_def ledger_1_def)

text \<open>
  Claim C3, amended. For every non-empty ledger the submit operation hands the whole
  ledger to the sink in exactly one call; when that call returns, whether the promise it
  returns is fulfilled or rejected, the local ledger is left empty; when the call throws,
  the state, and with it the ledger, is left as it was.
\<close>

theorem submit_hands_over_once:
  assumes "feedbackData st \<noteq> []"
  shows "snd (handleSubmitFeedback sink st) = [feedbackData st] \<and>
     (case sink (feedbackData st) of
        Returned r \<Rightarrow> feedbackData (fst (handleSubmitFeedback sink st)) = []
      | Threw \<Rightarrow> fst (handleSubmitFeedback sink st) = st)"
  using assms by (simp add: handleSubmitFeedback_def split: sink_outcome.splits)

theorem submit_hands_over_once_witness:
  "feedbackData (state_0\<lparr> feedbackData := ledger_1 \<rparr>) \<noteq> [] \<and>
   snd (handleSubmitFeedback (\<lambda>l. Threw) (state_0\<lparr> feedbackData := ledger_1 \<rparr>)) = [ledger_1] \<and>
   fst (handleSubmitFeedback (\<lambda>l. Threw) (state_0\<lparr> feedbackData := ledger_1 \<rparr>)) =
     state_0\<lparr> feedbackData := ledger_1 \<rparr>"
proof -
  have ne: "feedbackData (state_0\<lparr> feedbackData := ledger_1 \<rparr>) \<noteq> []"
    by (simp add: ledger_1_def)
  show ?thesis
    using submit_hands_over_once [OF ne, of "\<lambda>l. Threw"] ne by simp
qed

section \<open>The clickability flag of a highlight element\<close>




section \<open>The text locator returns the first occurrence\<close>

lemma startsWith_length:
  assumes "startsWith s t" shows "length t \<le> length s"
proof -
  have "length (take (length t) s) = length t" using assms by (simp add: startsWith_def)
  then show ?thesis by simp
qed

lemma indexOf_first:
  "i \<le> length s \<Longrightarrow> startsWith (drop i s) t \<Longrightarrow> \<forall>j<i. \<not> startsWith (drop j s) t \<Longrightarrow>
   indexOf s t = Some i"
proof (induction s arbitrary: i)
  case Nil
  then show ?case by (simp add: startsWith_def)
next
  case (Cons c cs)
  show ?case
  proof (cases i)
    case 0
    then show ?thesis using Cons.prems by simp
  next
    case (Suc k)
    have n0: "\<not> startsWith (c # cs) t" using Cons.prems(3) Suc by force
    have "\<forall>j<k. \<not> startsWith (drop j cs) t"
      using Cons.prems(3) Suc by (metis Suc_less_eq drop_Suc_Cons)
    then have "indexOf cs t = Some k" using Cons.IH [of k] Cons.prems(1,2) Suc by simp
    then show ?thesis using n0 Suc by simp
  qed
qed

lemma indexOf_Some:
  "indexOf s t = Some i \<Longrightarrow>
   i \<le> length s \<and> startsWith (drop i s) t \<and> (\<forall>j<i. \<not> startsWith (drop j s) t)"
proof (induction s arbitrary: i)
  case Nil
  then show ?case by (simp add: startsWith_def split: if_splits)
next
  case (Cons c cs)
  show ?case
  proof (cases "startsWith (c # cs) t")
    case True
    then show ?thesis using Cons.prems by simp
  next
    case False
    then obtain k where k: "indexOf cs t = Some k" "i = Suc k" using Cons.prems by auto
    from Cons.IH [OF k(1)] have ih: "k \<le> length cs" "startsWith (drop k cs) t"
      "\<forall>j<k. \<not> startsWith (drop j cs) t" by auto
    have "\<forall>j<Suc k. \<not> startsWith (drop j (c # cs)) t"
    proof (intro allI impI)
      fix j assume "j < Suc k"
      then show "\<not> startsWith (drop j (c # cs)) t"
        using False ih(3) by (cases j) auto
    qed
    then show ?thesis using ih k by simp
  qed
qed

lemma indexOf_exists:
  "i \<le> length s \<Longrightarrow> startsWith (drop i s) t \<Longrightarrow> \<exists>k\<le>i. indexOf s t = Some k"
proof (induction i rule: less_induct)
  case (less i)
  show ?case
  proof (cases "\<forall>j<i. \<not> startsWith (drop j s) t")
    case True
    then show ?thesis using indexOf_first less.prems by blast
  next
    case False
    then obtain j where j: "j < i" "startsWith (drop j s) t" by auto
    then have "\<exists>k\<le>j. indexOf s t = Some k" using less.IH [of j] less.prems by simp
    then show ?thesis using j(1) by (meson le_trans less_imp_le_nat)
  qed
qed

lemma substring_in_range:
  "0 \<le> a \<Longrightarrow> a \<le> b \<Longrightarrow> b \<le> int (length s) \<Longrightarrow>
   substring s a b = take (nat (b - a)) (drop (nat a) s)"
  by (simp add: substring_def Let_def min_def max_def)

lemma startsWith_substring:
  assumes "0 \<le> a" "a \<le> b" "b \<le> int (length s)"
  shows "startsWith (drop (nat a) s) (substring s a b) \<and> int (length (substring s a b)) = b - a"
  using assms by (auto simp: substring_in_range startsWith_def min_def)

text \<open>
  Claim C6, amended. For every text node and declared offsets with
  \<open>0 \<le> relativeStart < relativeEnd \<le> length textContent\<close> whose declared text is the
  substring they bound, the Text Locator returns the range of the first occurrence of
  that text in the node's text content. That range is \<open>[relativeStart, relativeEnd)\<close>
  when the text does not occur at an earlier position; when it does, the range of the
  earlier occurrence is returned.
\<close>

theorem locate_first_occurrence:
  assumes "0 \<le> rs" "rs < re" "re \<le> int (length tc)"
    and "s_relative_start sp = Some rs" "s_relative_end sp = Some re"
    and "s_text sp = Some (substring tc rs re)"
  shows "\<exists>i. indexOf tc (substring tc rs re) = Some i \<and> int i \<le> rs \<and>
           locate sp tc = Some (int i, int i + (re - rs)) \<and>
           ((\<forall>j<nat rs. \<not> startsWith (drop j tc) (substring tc rs re)) \<longrightarrow>
              locate sp tc = Some (rs, re))"
proof -
  let ?t = "substring tc rs re"
  have sw: "startsWith (drop (nat rs) tc) ?t" and len: "int (length ?t) = re - rs"
    using startsWith_substring [of rs re tc] assms(1-3) by auto
  have ne: "?t \<noteq> []" using len assms(2) by auto
  have le: "nat rs \<le> length tc" using assms(1-3) by simp
  from indexOf_exists [OF le sw]
  obtain i where i: "i \<le> nat rs" "indexOf tc ?t = Some i" by auto
  from indexOf_Some [OF i(2)] have fi: "i \<le> length tc" "startsWith (drop i tc) ?t" by auto
  have "length ?t \<le> length (drop i tc)" using fi(2) by (rule startsWith_length)
  then have bound: "int i + (re - rs) \<le> int (length tc)" using len fi(1) by simp
  have adj: "adjusted_offsets sp tc = (int i, int i + (re - rs))"
    using assms(6) ne i(2) len
    by (simp add: adjusted_offsets_def truthy_text_def includes_str_def found_at_def Let_def)
  have loc: "locate sp tc = Some (int i, int i + (re - rs))"
    using adj bound assms(2) by (simp add: locate_def)
  have first: "(\<forall>j<nat rs. \<not> startsWith (drop j tc) ?t) \<longrightarrow> locate sp tc = Some (rs, re)"
  proof
    assume "\<forall>j<nat rs. \<not> startsWith (drop j tc) ?t"
    then have "indexOf tc ?t = Some (nat rs)"
      using indexOf_first [OF le sw] by simp
    then have "i = nat rs" using i(2) by simp
    then show "locate sp tc = Some (rs, re)" using loc assms(1) by simp
  qed
  have "int i \<le> rs" using i(1) assms(1) by simp
  with i(2) loc first show ?thesis by blast
qed

text \<open>Without a declared text the declared offsets are returned as they are.\<close>

lemma locate_without_text:
  assumes "0 \<le> rs" "rs < re" "re \<le> int (length tc)"
    and "s_relative_start sp = Some rs" "s_relative_end sp = Some re"
    and "\<not> truthy_text (s_text sp)"
  shows "locate sp tc = Some (rs, re)"
  using assms by (simp add: locate_def adjusted_offsets_def declared_offsets_def Let_def)


text \<open>
  Claim C6 as stated fails: the offsets 3 and 5 bound the second \<^verbatim>\<open>ab\<close> of \<^verbatim>\<open>ab ab\<close>,
  and the locator returns the range of the first.
\<close>

theorem locate_counterexample:
  "substring ''ab ab'' 3 5 = ''ab'' \<and> locate span_ab ''ab ab'' = Some (0, 2)"
  by (simp add: locate_def adjusted_offsets_def declared_offsets_def span_ab_def no_span_def
      truthy_text_def includes_str_def found_at_def startsWith_def substring_def Let_def)

text \<open>Witness for C6: the offsets 0 and 2 on the same text node.\<close>

theorem locate_first_occurrence_witness:
  "(0::int) \<le> 0 \<and> (0::int) < 2 \<and> (2::int) \<le> int (length ''ab ab'') \<and>
   (\<exists>i. indexOf ''ab ab'' (substring ''ab ab'' 0 2) = Some i \<and> int i \<le> 0 \<and>
        locate (span_ab\<lparr> s_relative_start := Some 0, s_relative_end := Some 2 \<rparr>) ''ab ab'' =
          Some (int i, int i + (2 - 0)))"
proof -
  have t: "s_text (span_ab\<lparr> s_relative_start := Some 0, s_relative_end := Some 2 \<rparr>) =
     Some (substring ''ab ab'' 0 2)"
    by (simp add: span_ab_def no_span_def substring_def Let_def)
  show ?thesis
    using locate_first_occurrence [of 0 2 "''ab ab''"
        "span_ab\<lparr> s_relative_start := Some 0, s_relative_end := Some 2 \<rparr>"] t
    by auto
qed

section \<open>The order of the XPath resolver\<close>

lemma replace_first_prefix:
  "startsWith x p \<Longrightarrow> replace_first x p rep = rep @ drop (length p) x"
  by (cases x) (auto simp: startsWith_def)

lemma startsWith_append: "startsWith x (p @ q) \<Longrightarrow> startsWith x p"
  by (metis append_eq_conv_conj startsWith_def take_take min.absorb1 le_add1 length_append)

lemma startsWith_iff: "startsWith s p \<longleftrightarrow> (\<exists>r. s = p @ r)"
proof
  assume "startsWith s p"
  then have "s = p @ drop (length p) s"
    unfolding startsWith_def by (metis append_take_drop_id)
  then show "\<exists>r. s = p @ r" by blast
next
  assume "\<exists>r. s = p @ r"
  then show "startsWith s p" by (auto simp: startsWith_def)
qed

text \<open>\<^verbatim>\<open>includes\<close>, and the two matchers, said without the search.\<close>

lemma indexOf_None: "indexOf s t = None \<longleftrightarrow> (\<forall>u v. s \<noteq> u @ t @ v)"
proof (induction s)
  case Nil
  then show ?case by auto
next
  case (Cons c cs)
  show ?case
  proof (cases "startsWith (c # cs) t")
    case True
    then obtain r where "c # cs = t @ r" using startsWith_iff by blast
    then have "c # cs = [] @ t @ r" by simp
    then have "\<not> (\<forall>u v. c # cs \<noteq> u @ t @ v)" by blast
    then show ?thesis using True by simp
  next
    case False
    have "(\<forall>u v. c # cs \<noteq> u @ t @ v) \<longleftrightarrow> (\<forall>u v. cs \<noteq> u @ t @ v)"
    proof
      assume a: "\<forall>u v. c # cs \<noteq> u @ t @ v"
      show "\<forall>u v. cs \<noteq> u @ t @ v"
      proof (intro allI notI)
        fix u v assume "cs = u @ t @ v"
        then have "c # cs = (c # u) @ t @ v" by simp
        then show False using a by blast
      qed
    next
      assume a: "\<forall>u v. cs \<noteq> u @ t @ v"
      show "\<forall>u v. c # cs \<noteq> u @ t @ v"
      proof (intro allI notI)
        fix u v assume e: "c # cs = u @ t @ v"
        show False
        proof (cases u)
          case Nil
          then have "startsWith (c # cs) t" using e startsWith_iff by auto
          then show False using False by simp
        next
          case (Cons d u')
          then have "cs = u' @ t @ v" using e by simp
          then show False using a by blast
        qed
      qed
    qed
    then show ?thesis using False Cons.IH by simp
  qed
qed

lemma includes_str_iff: "includes_str s t \<longleftrightarrow> (\<exists>u v. s = u @ t @ v)"
  using indexOf_None [of s t] by (auto simp: includes_str_def)

lemma bracketed_iff:
  "bracketed name s = Some (ds, r) \<longleftrightarrow>
     s = name @ ''['' @ ds @ '']'' @ r \<and> ds \<noteq> [] \<and> (\<forall>c\<in>set ds. is_digit c)"
proof
  assume a: "bracketed name s = Some (ds, r)"
  then have sw: "startsWith s (name @ ''['')"
    by (auto simp: bracketed_def split: if_splits)
  then obtain t where t: "s = (name @ ''['') @ t" using startsWith_iff by blast
  then have d: "drop (length name + 1) s = t" by simp
  from a sw d have 1: "takeWhile is_digit t \<noteq> []"
    and 2: "startsWith (dropWhile is_digit t) '']''"
    and 3: "ds = takeWhile is_digit t" and 4: "r = drop 1 (dropWhile is_digit t)"
    by (auto simp: bracketed_def Let_def split: if_splits)
  from 2 obtain q where q: "dropWhile is_digit t = '']'' @ q" using startsWith_iff by blast
  then have "r = q" using 4 by simp
  then have "t = ds @ '']'' @ r" using 3 q takeWhile_dropWhile_id [of is_digit t] by simp
  moreover have "\<forall>c\<in>set ds. is_digit c" using 3 by (auto dest: set_takeWhileD)
  ultimately show "s = name @ ''['' @ ds @ '']'' @ r \<and> ds \<noteq> [] \<and> (\<forall>c\<in>set ds. is_digit c)"
    using t 1 3 by simp
next
  assume a: "s = name @ ''['' @ ds @ '']'' @ r \<and> ds \<noteq> [] \<and> (\<forall>c\<in>set ds. is_digit c)"
  obtain t where t: "t = ds @ '']'' @ r" by simp
  have sw: "startsWith s (name @ ''['')" using a by (simp add: startsWith_def)
  have d: "drop (length name + 1) s = t" using a t by simp
  have nd: "\<not> is_digit (CHR '']'')" by (simp add: is_digit_def)
  have tw: "takeWhile is_digit t = ds" using a nd t by (simp add: takeWhile_append2)
  have dw: "dropWhile is_digit t = '']'' @ r" using a nd t by (simp add: dropWhile_append2)
  have ne: "ds \<noteq> []" using a by simp
  have sw2: "startsWith ('']'' @ r) '']''" by (simp add: startsWith_def)
  have dr: "drop 1 ('']'' @ r) = r" by simp
  show "bracketed name s = Some (ds, r)"
    unfolding bracketed_def Let_def d tw dw using sw ne sw2 dr by simp
qed

text \<open>\<^verbatim>\<open>match\<close> answers with the leftmost position at which the expression matches.\<close>

lemma first_match_leftmost:
  "first_match m s = Some v \<longleftrightarrow>
     (\<exists>u w. s = u @ w \<and> m w = Some v \<and>
        (\<forall>u' w'. s = u' @ w' \<and> length u' < length u \<longrightarrow> m w' = None))"
proof (induction s)
  case Nil
  then show ?case by auto
next
  case (Cons c cs)
  show ?case
  proof (cases "m (c # cs)")
    case (Some r)
    have "(\<exists>u w. c # cs = u @ w \<and> m w = Some v \<and>
        (\<forall>u' w'. c # cs = u' @ w' \<and> length u' < length u \<longrightarrow> m w' = None)) \<longleftrightarrow> r = v"
    proof
      assume "\<exists>u w. c # cs = u @ w \<and> m w = Some v \<and>
        (\<forall>u' w'. c # cs = u' @ w' \<and> length u' < length u \<longrightarrow> m w' = None)"
      then obtain u w where u: "c # cs = u @ w" "m w = Some v"
        "\<forall>u' w'. c # cs = u' @ w' \<and> length u' < length u \<longrightarrow> m w' = None" by blast
      have "u = []"
      proof (rule ccontr)
        assume "u \<noteq> []"
        then have "c # cs = [] @ (c # cs) \<and> length ([] :: string) < length u" by simp
        then have "m (c # cs) = None" using u(3) by blast
        then show False using Some by simp
      qed
      then show "r = v" using u(1,2) Some by simp
    next
      assume "r = v"
      then have "c # cs = [] @ (c # cs) \<and> m (c # cs) = Some v \<and>
        (\<forall>u' w'. c # cs = u' @ w' \<and> length u' < length ([] :: string) \<longrightarrow> m w' = None)"
        using Some by simp
      then show "\<exists>u w. c # cs = u @ w \<and> m w = Some v \<and>
        (\<forall>u' w'. c # cs = u' @ w' \<and> length u' < length u \<longrightarrow> m w' = None)" by blast
    qed
    then show ?thesis using Some by simp
  next
    case None
    have "(\<exists>u w. c # cs = u @ w \<and> m w = Some v \<and>
        (\<forall>u' w'. c # cs = u' @ w' \<and> length u' < length u \<longrightarrow> m w' = None)) \<longleftrightarrow>
      (\<exists>u w. cs = u @ w \<and> m w = Some v \<and>
        (\<forall>u' w'. cs = u' @ w' \<and> length u' < length u \<longrightarrow> m w' = None))" (is "?L \<longleftrightarrow> ?R")
    proof
      assume ?L
      then obtain u w where u: "c # cs = u @ w" "m w = Some v"
        "\<forall>u' w'. c # cs = u' @ w' \<and> length u' < length u \<longrightarrow> m w' = None" by blast
      have "u \<noteq> []" using u(1,2) None by auto
      then obtain t where t: "u = c # t" using u(1) by (cases u) auto
      then have e: "cs = t @ w" using u(1) by simp
      have "\<forall>u' w'. cs = u' @ w' \<and> length u' < length t \<longrightarrow> m w' = None"
      proof (intro allI impI)
        fix u' w' assume "cs = u' @ w' \<and> length u' < length t"
        then have "c # cs = (c # u') @ w' \<and> length (c # u') < length u" using t by simp
        then show "m w' = None" using u(3) by blast
      qed
      then show ?R using e u(2) by blast
    next
      assume ?R
      then obtain u w where u: "cs = u @ w" "m w = Some v"
        "\<forall>u' w'. cs = u' @ w' \<and> length u' < length u \<longrightarrow> m w' = None" by blast
      have "\<forall>u' w'. c # cs = u' @ w' \<and> length u' < length (c # u) \<longrightarrow> m w' = None"
      proof (intro allI impI)
        fix u' w' assume a: "c # cs = u' @ w' \<and> length u' < length (c # u)"
        show "m w' = None"
        proof (cases u')
          case Nil
          then show ?thesis using a None by simp
        next
          case (Cons d t)
          then have "cs = t @ w' \<and> length t < length u" using a by simp
          then show ?thesis using u(3) by blast
        qed
      qed
      moreover have "c # cs = (c # u) @ w" using u(1) by simp
      ultimately show ?L using u(2) by blast
    qed
    then show ?thesis using None Cons.IH by simp
  qed
qed







text \<open>
  Where the test for \<^verbatim>\<open>tr[m]/td[n]\<close> succeeds, both single matches exist, so the
  expression is pushed.
\<close>

lemma first_match_exists:
  "m w = Some v \<Longrightarrow> \<exists>v'. first_match m (u @ w) = Some v'"
proof (induction u)
  case Nil
  then show ?case by (cases w) auto
next
  case (Cons c u)
  then show ?case by (cases "m (c # u @ w)") auto
qed

lemma first_match_None: "first_match m s = None \<Longrightarrow> s = u @ w \<Longrightarrow> m w = None"
  using first_match_exists [of m w _ u] by (cases "m w") auto

lemma tr_td_both:
  assumes "first_match tr_td_here x \<noteq> None"
  shows "first_match (bracketed ''tr'') x \<noteq> None \<and> first_match (bracketed ''td'') x \<noteq> None"
proof -
  from assms obtain v where "first_match tr_td_here x = Some v" by auto
  then obtain u w where w: "x = u @ w" "tr_td_here w = Some v"
    using first_match_leftmost [of tr_td_here x v] by blast
  from w(2) obtain ds r where tr: "bracketed ''tr'' w = Some (ds, r)"
    by (auto simp: tr_td_here_def split: option.splits)
  with w(2) have sl: "startsWith r ''/''" and "bracketed ''td'' (drop 1 r) \<noteq> None"
    by (auto simp: tr_td_here_def split: option.splits if_splits)
  then obtain es q where td: "bracketed ''td'' (drop 1 r) = Some (es, q)" by auto
  from tr have we: "w = ''tr'' @ ''['' @ ds @ '']'' @ r" using bracketed_iff by blast
  from sl obtain r' where r': "r = ''/'' @ r'" using startsWith_iff by blast
  then have "x = (u @ ''tr'' @ ''['' @ ds @ '']'' @ ''/'') @ drop 1 r" using w(1) we by simp
  then have 2: "first_match (bracketed ''td'') x \<noteq> None"
    using first_match_exists [of "bracketed ''td''" "drop 1 r" "(es, q)"
        "u @ ''tr'' @ ''['' @ ds @ '']'' @ ''/''"] td by auto
  have 1: "first_match (bracketed ''tr'') x \<noteq> None"
    using first_match_exists [of "bracketed ''tr''" w "(ds, r)" u] tr w(1) by auto
  from 1 2 show ?thesis by (rule conjI)
qed



text \<open>
  The second resolver tries the captured path first, then the body-stripped path twice
  and the root-stripped path, with one context node only.
\<close>

lemma getElementByXPath_order:
  assumes "startsWith x ''/html/body''"
  shows "getElementByXPath ev (normalizeXPath x) =
           first_nonempty ev [x, (if drop 10 x = [] then ''.'' else drop 10 x),
                              drop 10 x, drop 5 x]"
proof -
  have h: "startsWith x ''/html''" using startsWith_append [of x "''/html''" "''/body''"] assms(1)
    by simp
  have ne: "x \<noteq> []" using assms by (auto simp: startsWith_def)
  have "length ''/html/body'' = 10" "length ''/html'' = 5"
    by (simp_all add: eval_nat_numeral)
  then have "drop (length ''/html/body'') x = drop 10 x" "drop (length ''/html'') x = drop 5 x"
    by (simp_all del: length_Cons list.size)
  then show ?thesis using assms h ne
    by (simp add: getElementByXPath_def normalizeXPath_def replace_first_prefix Let_def
        del: length_Cons list.size)
qed
section \<open>Dragging the end handle\<close>

text \<open>
  \<^verbatim>\<open>handleDrag\<close> never records an offset: whatever the pointer does, the offsets that
  \<^verbatim>\<open>handleDragEnd\<close> reads stay as \<^verbatim>\<open>handleDragStart\<close> left them, absent.
\<close>

lemma handleDrag_records_no_offset:
  "map_option dd_newEndOffset (originalSpanData (handleDrag clientX ds)) =
     map_option dd_newEndOffset (originalSpanData ds) \<and>
   map_option dd_newStartOffset (originalSpanData (handleDrag clientX ds)) =
     map_option dd_newStartOffset (originalSpanData ds)"
  by (simp add: handleDrag_def Let_def split: option.splits bool.splits)

text \<open>
  Claim C4, at a failing input. The email is \<^verbatim>\<open><p>Hello world</p>\<close>, the span
  \<open>span_S\<close> covers \<^verbatim>\<open>Hello\<close>, edit mode is on and the span is active. No highlight
  element of the renderer contains a resize handle, so the rendered
  document has a highlight and no handle: there is nothing to start a drag on. A
  pointer that moves 24 pixels to the right and is released reaches \<^verbatim>\<open>handleDrag\<close>
  and \<^verbatim>\<open>handleDragEnd\<close> with no drag in progress, and the pending span still ends at
  offset 5 with the text \<^verbatim>\<open>Hello\<close>, where the claim has offset 8 and \<^verbatim>\<open>Hello wo\<close>.
\<close>

theorem end_handle_drag_commits_nothing:
  "count_handles (highlight_element act sp index txt) = 0 \<and>
   editMode editing_S \<and> active_span_fields editing_S heap_0 = Some span_S \<and>
   count_highlights
     (html_rerender big parse_hello child_step_evaluator True hello_html (Some body_ref)
        editing_S heap_0 page_hello) = 1 \<and>
   count_handles
     (html_rerender big parse_hello child_step_evaluator True hello_html (Some body_ref)
        editing_S heap_0 page_hello) = 0 \<and>
   handleDragEnd (Some [span_S]) (editing_S, handleDrag 124 no_drag) = (editing_S, no_drag) \<and>
   highlightedText editing_S = Some span_S \<and>
   s_relative_end span_S = Some 5 \<and> s_text span_S = Some ''Hello''"
proof -
  have 1: "count_handles (highlight_element act sp index txt) = 0"
    by (simp add: highlight_element_def createSpanElement_def startsWith_def)
  have 2: "editMode editing_S" by code_simp
  have 3: "active_span_fields editing_S heap_0 = Some span_S" by code_simp
  have 4: "count_highlights
     (html_rerender big parse_hello child_step_evaluator True hello_html (Some body_ref)
        editing_S heap_0 page_hello) = 1" by code_simp
  have 5: "count_handles
     (html_rerender big parse_hello child_step_evaluator True hello_html (Some body_ref)
        editing_S heap_0 page_hello) = 0" by code_simp
  have 6: "handleDragEnd (Some [span_S]) (editing_S, handleDrag 124 no_drag) =
     (editing_S, no_drag)"
    by (simp add: handleDragEnd_def handleDrag_def no_drag_def)
  have 7: "highlightedText editing_S = Some span_S" by code_simp
  have 8: "s_relative_end span_S = Some 5 \<and> s_text span_S = Some ''Hello''"
    by (simp add: span_S_def)
  show ?thesis using 1 2 3 4 5 6 7 8 by (intro conjI) simp_all
qed
section \<open>Re-rendering the HTML body\<close>

lemma set_children_overwrite:
  "set_children d p xs = Some d1 \<Longrightarrow> set_children d1 p ys = set_children d p ys"
proof (induction d p xs arbitrary: d1 rule: set_children.induct)
  case (1 t p new)
  then show ?case by simp
next
  case (2 a cs new)
  then show ?case by auto
next
  case (3 a cs i p new)
  then show ?case by (auto split: if_splits option.splits)
qed

lemma set_children_succeeds:
  "set_children d p xs = Some d1 \<Longrightarrow> \<exists>d2. set_children d p ys = Some d2"
proof (induction d p xs arbitrary: d1 rule: set_children.induct)
  case (1 t p new)
  then show ?case by simp
next
  case (2 a cs new)
  then show ?case by auto
next
  case (3 a cs i p new)
  then show ?case by (auto split: if_splits option.splits)
qed

text \<open>
  The effect empties the email body element before it rebuilds it, so its result does not
  depend on what the element held before; a run whose changes stay inside the element
  is therefore reproduced by the next run.
\<close>

lemma html_rerender_ignores_body:
  assumes "set_children d body xs = Some d1" "isHtml" "selectedPrediction st \<noteq> None"
  shows "html_rerender big parse ev isHtml content (Some body) st h d1 =
         html_rerender big parse ev isHtml content (Some body) st h d"
proof -
  from set_children_succeeds [OF assms(1)] obtain cleared where
    c: "set_children d body [] = Some cleared" by blast
  have c1: "set_children d1 body [] = Some cleared"
    using set_children_overwrite [OF assms(1)] c by simp
  show ?thesis using assms(2,3) c c1 by (simp add: html_rerender_def)
qed

lemma html_rerender_idempotent_in_body:
  assumes "set_children d body kids =
             Some (html_rerender big parse ev isHtml content (Some body) st h d)"
  shows "html_rerender big parse ev isHtml content (Some body) st h
           (html_rerender big parse ev isHtml content (Some body) st h d) =
         html_rerender big parse ev isHtml content (Some body) st h d"
proof (cases "isHtml \<and> selectedPrediction st \<noteq> None")
  case True
  then show ?thesis using html_rerender_ignores_body [OF assms] by simp
next
  case False
  then show ?thesis by (auto simp: html_rerender_def)
qed

lemma node_at_set_children:
  "set_children d p new = Some d1 \<Longrightarrow>
   \<exists>a cs. node_at d p = Some (Element a cs) \<and> node_at d1 p = Some (Element a new)"
proof (induction d p new arbitrary: d1 rule: set_children.induct)
  case (1 t p new)
  then show ?case by simp
next
  case (2 a cs new)
  then show ?case by auto
next
  case (3 a cs i p new)
  then show ?case by (auto split: if_splits option.splits)
qed

text \<open>
  What the effect puts into the email body element is the parsed markup as it came, in
  a wrapper; no sanitizer is among its parameters.
\<close>

lemma html_rerender_inserts_raw:
  assumes "node_at doc body = Some (Element a cs)" "selectedPrediction st \<noteq> None"
    and "parse content \<noteq> []" "selected_spans st h = []"
  shows "node_at (html_rerender big parse ev True content (Some body) st h doc) body =
           Some (Element a [wrapperDiv (parse content)])"
proof -
  have "\<exists>d2. set_children doc body [] = Some d2" using assms(1)
  proof (induction doc body arbitrary: a cs rule: node_at.induct)
    case (1 n)
    then show ?case by (cases n) auto
  next
    case (2 t i p)
    then show ?case by simp
  next
    case (3 b ds i p)
    then show ?case by (auto split: if_splits)
  qed
  then obtain cleared where c: "set_children doc body [] = Some cleared" by blast
  from node_at_set_children [OF c] assms(1)
  have n1: "node_at cleared body = Some (Element a [])" by auto
  from set_children_succeeds [OF c] obtain rebuilt where
    "set_children doc body [wrapperDiv (parse content)] = Some rebuilt" by blast
  then have r: "set_children cleared body [wrapperDiv (parse content)] = Some rebuilt"
    using set_children_overwrite [OF c] by simp
  from node_at_set_children [OF r] n1
  have n2: "node_at rebuilt body = Some (Element a [wrapperDiv (parse content)])" by auto
  show ?thesis using assms(2-4) c r n2 by (simp add: html_rerender_def)
qed

text \<open>
  Claim C2, at a failing input. For the markup \<^verbatim>\<open><p>Hi</p><img src=x onerror=alert(1)>\<close>
  React renders the sanitized content, in which the image has lost its event handler
  (the second version of the component renders the markup as it is); once a prediction
  is selected, the re-render effect replaces that content by the parsed original, in
  which the image carries the handler \<^verbatim>\<open>onerror\<close>.
\<close>

theorem unsanitized_rerender:
  "childNodes_of (renderEmailContent_html sanitize_0 parse_0 False unsafe_html) =
     [el ''p'' [] [TextNode ''Hi''], img [(''src'', ''x'')]] \<and>
   childNodes_of (renderEmailContent_html_alt parse_0 False unsafe_html) =
     [el ''p'' [] [TextNode ''Hi''], img [(''src'', ''x''), (''onerror'', ''alert(1)'')]] \<and>
   node_at (html_rerender big parse_0 child_step_evaluator True unsafe_html (Some body_ref)
              state_0 heap_E page_unsafe) body_ref =
     Some (el ''div'' ''email-body html-content ''
            [wrapperDiv [el ''p'' [] [TextNode ''Hi''],
                         img [(''src'', ''x''), (''onerror'', ''alert(1)'')]]])"
proof -
  have s: "sanitize_0 unsafe_html = sanitized_html" by (simp add: sanitize_0_def)
  have ne: "sanitized_html \<noteq> unsafe_html"
    by (simp add: sanitized_html_def unsafe_html_def)
  have p1: "parse_0 sanitized_html = [el ''p'' [] [TextNode ''Hi''], img [(''src'', ''x'')]]"
    using ne by (simp add: parse_0_def)
  have p2: "parse_0 unsafe_html =
      [el ''p'' [] [TextNode ''Hi''], img [(''src'', ''x''), (''onerror'', ''alert(1)'')]]"
    by (simp add: parse_0_def)
  have a: "childNodes_of (renderEmailContent_html sanitize_0 parse_0 False unsafe_html) =
      [el ''p'' [] [TextNode ''Hi''], img [(''src'', ''x'')]]"
    by (simp add: renderEmailContent_html_def childNodes_of_def s p1)
  have b: "childNodes_of (renderEmailContent_html_alt parse_0 False unsafe_html) =
      [el ''p'' [] [TextNode ''Hi''], img [(''src'', ''x''), (''onerror'', ''alert(1)'')]]"
    by (simp add: renderEmailContent_html_alt_def childNodes_of_def p2)
  have n: "node_at page_unsafe body_ref =
      Some (Element \<lparr> tagName = ''div'', className = ''email-body html-content '', title = [],
                      dataset = [], attributes = [] \<rparr>
              [el ''p'' [] [TextNode ''Hi''], img [(''src'', ''x'')]])"
    by (simp add: page_unsafe_def a host_page_def email_section_def el_def body_ref_def)
  have sel: "selectedPrediction state_0 \<noteq> None" by (simp add: state_0_def)
  have pne: "parse_0 unsafe_html \<noteq> []" by (simp add: p2)
  have none: "selected_spans state_0 heap_E = []"
    by (simp add: selected_spans_def state_0_def heap_E_def)
  have c: "node_at (html_rerender big parse_0 child_step_evaluator True unsafe_html
                      (Some body_ref) state_0 heap_E page_unsafe) body_ref =
      Some (el ''div'' ''email-body html-content ''
             [wrapperDiv [el ''p'' [] [TextNode ''Hi''],
                          img [(''src'', ''x''), (''onerror'', ''alert(1)'')]]])"
    using html_rerender_inserts_raw [where parse = parse_0 and content = unsafe_html
        and big = big and ev = child_step_evaluator, OF n sel pne none]
    by (simp add: p2 el_def)
  show ?thesis using a b c by (intro conjI)
qed

text \<open>
  Claim C7, at a failing input. The path of the evidence span, \<^verbatim>\<open>/html/body/div[1]\<close>,
  matches nothing in the email \<^verbatim>\<open><p>Hi</p>\<close>; as an absolute path it denotes the
  outermost \<^verbatim>\<open>div\<close> of the host page, whose first text is the heading. The first run highlights
  five characters of the heading, outside the email body element that the effect
  empties; the second run finds that highlight and puts another one inside it.
\<close>

theorem rerender_twice_nests:
  "count_highlights (rerender_D big page_D) = 1 \<and>
   count_highlights (rerender_D big (rerender_D big page_D)) = 2"
  by code_simp


end
